theory Spec2Isabelle
  imports Complex_Main "HOL-Library.Log_Nat" "HOL-Library.Word"
begin

section \<open>Python values: exceptions, floats, arrays\<close>

text \<open>
  The exceptions that \<^verbatim>\<open>viz_tools.py\<close> can raise by itself (not counting those of the
  plotting, encoding and marching-cubes libraries, which are black boxes here).
\<close>

datatype error =
    IndexError
  | ValueError
  | NameError
  | ZeroDivisionError
  | UnboundLocalError
  | FileNotFoundError

subsection \<open>Double-precision arithmetic\<close>

text \<open>
  A Python \<^verbatim>\<open>float\<close> is an IEEE 754 binary64 number. A finite float is modelled by the
  rational number it denotes, and every arithmetic operation returns the exact result
  rounded to the nearest number with a 53-bit significand, ties to even
  (\<open>float64\<close>). Overflow to infinity, subnormal numbers and NaN are left out: the
  model is exact for results whose magnitude lies in the normal range of binary64.
  Arguments that a caller may also pass as Python integers (the frame interval, the
  corners of the bounding box) are modelled by the floats they convert to; integer
  arithmetic agrees with the model as long as the values stay below \<open>2^53\<close>.
\<close>

definition pow2 :: "int \<Rightarrow> rat" where
  "pow2 k = (if 0 \<le> k then 2 ^ nat k else 1 / 2 ^ nat (- k))"

definition ilog2 :: "rat \<Rightarrow> int" where
  \<comment> \<open>for \<open>0 < x\<close>: the exponent \<open>e\<close> with \<open>2^e \<le> x < 2^(e+1)\<close>\<close>
  "ilog2 x = (if 1 \<le> x then bitlen \<lfloor>x\<rfloor> - 1 else - bitlen (\<lceil>1 / x\<rceil> - 1))"

definition round_half_even :: "rat \<Rightarrow> int" where
  "round_half_even x =
     (let f = \<lfloor>x\<rfloor>; d = x - of_int f
      in if d < 1 / 2 then f else if 1 / 2 < d then f + 1 else if even f then f else f + 1)"

definition float64 :: "rat \<Rightarrow> rat" where
  "float64 x =
     (if x = 0 then 0
      else let u = ilog2 \<bar>x\<bar> - 52 in of_int (round_half_even (x / pow2 u)) * pow2 u)"

definition fsub :: "rat \<Rightarrow> rat \<Rightarrow> rat" where
  "fsub x y = float64 (x - y)"

definition fmul :: "rat \<Rightarrow> rat \<Rightarrow> rat" where
  "fmul x y = float64 (x * y)"

definition fdiv :: "rat \<Rightarrow> rat \<Rightarrow> error + rat" where
  \<comment> \<open>true division \<^verbatim>\<open>x / y\<close>\<close>
  "fdiv x y = (if y = 0 then Inl ZeroDivisionError else Inr (float64 (x / y)))"

definition float_of_int :: "int \<Rightarrow> rat" where
  \<comment> \<open>the conversion of an \<^verbatim>\<open>int\<close> operand in mixed arithmetic\<close>
  "float_of_int n = float64 (of_int n)"

definition py_int :: "rat \<Rightarrow> int" where
  \<comment> \<open>\<^verbatim>\<open>int(x)\<close> truncates towards zero\<close>
  "py_int x = (if 0 \<le> x then \<lfloor>x\<rfloor> else \<lceil>x\<rceil>)"

subsection \<open>Arrays\<close>

text \<open>
  A two-dimensional numpy array is the list of its rows; a snapshot sequence is a list
  of such arrays.
\<close>

type_synonym array2 = "rat list list"

definition shape0 :: "array2 \<Rightarrow> nat" where
  "shape0 a = length a"

definition shape1 :: "array2 \<Rightarrow> nat" where
  "shape1 a = (case a of [] \<Rightarrow> 0 | r # _ \<Rightarrow> length r)"

definition flatten :: "array2 \<Rightarrow> rat list" where
  "flatten a = concat a"

definition amax :: "rat list \<Rightarrow> error + rat" where
  \<comment> \<open>\<^verbatim>\<open>.max()\<close>: a zero-size array raises ValueError\<close>
  "amax xs = (case xs of [] \<Rightarrow> Inl ValueError | x # ys \<Rightarrow> Inr (fold max ys x))"

definition amin :: "rat list \<Rightarrow> error + rat" where
  "amin xs = (case xs of [] \<Rightarrow> Inl ValueError | x # ys \<Rightarrow> Inr (fold min ys x))"

definition drop_last2 :: "array2 \<Rightarrow> array2" where
  \<comment> \<open>the slice \<^verbatim>\<open>a[:-1, :-1]\<close>\<close>
  "drop_last2 a = map butlast (butlast a)"

section \<open>The outside world: directories, files, video writers\<close>

type_synonym path = "string list"

type_synonym rgba = "8 word \<times> 8 word \<times> 8 word \<times> 8 word"

type_synonym bgr = "8 word \<times> 8 word \<times> 8 word"

text \<open>
  A PNG written by \<^verbatim>\<open>plt.savefig\<close> holds 8-bit RGBA pixels; \<^verbatim>\<open>frame.size\<close> is
  (width, height) and \<^verbatim>\<open>np.array(frame)\<close> is the array of pixel rows.
\<close>

record png_image =
  img_size :: "nat \<times> nat"
  img_pixels :: "rgba list list"

type_synonym mesh = "(rat \<times> rat \<times> rat) list \<times> (nat \<times> nat \<times> nat) list"

datatype file_content = Png png_image | Obj mesh

record video_writer =
  vw_filename :: path
  vw_fourcc :: string
  vw_fps :: nat
  vw_frame_size :: "nat \<times> nat"
  vw_frames :: "bgr list list list"
  vw_released :: bool

record world =
  dirs :: "path set"
  files :: "path \<rightharpoonup> file_content"
  writers :: "video_writer list"

definition mkdir_parents :: "path \<Rightarrow> world \<Rightarrow> world" where
  \<comment> \<open>\<^verbatim>\<open>p.mkdir(parents=True, exist_ok=True)\<close>\<close>
  "mkdir_parents p w = w\<lparr>dirs := dirs w \<union> set (map (\<lambda>k. take k p) [1..<Suc (length p)])\<rparr>"

definition savefig :: "('fig \<Rightarrow> png_image) \<Rightarrow> 'fig \<Rightarrow> path \<Rightarrow> world \<Rightarrow> world" where
  "savefig rasterize fig p w = w\<lparr>files := (files w)(p \<mapsto> Png (rasterize fig))\<rparr>"

definition Image_open :: "path \<Rightarrow> world \<Rightarrow> error + png_image" where
  "Image_open p w = (case files w p of Some (Png im) \<Rightarrow> Inr im | _ \<Rightarrow> Inl FileNotFoundError)"

definition VideoWriter :: "path \<Rightarrow> string \<Rightarrow> nat \<Rightarrow> nat \<times> nat \<Rightarrow> world \<Rightarrow> nat \<times> world" where
  \<comment> \<open>a new writer object; its handle is its position in the store\<close>
  "VideoWriter name fourcc fps sz w =
     (length (writers w),
      w\<lparr>writers := writers w @
           [\<lparr>vw_filename = name, vw_fourcc = fourcc, vw_fps = fps, vw_frame_size = sz,
             vw_frames = [], vw_released = False\<rparr>]\<rparr>)"

definition video_write :: "nat \<Rightarrow> bgr list list \<Rightarrow> world \<Rightarrow> world" where
  "video_write v frame w =
     w\<lparr>writers := (writers w)[v := (writers w ! v)\<lparr>vw_frames := vw_frames (writers w ! v) @ [frame]\<rparr>]\<rparr>"

definition video_release :: "nat \<Rightarrow> world \<Rightarrow> world" where
  "video_release v w = w\<lparr>writers := (writers w)[v := (writers w ! v)\<lparr>vw_released := True\<rparr>]\<rparr>"

definition select_210 :: "png_image \<Rightarrow> bgr list list" where
  \<comment> \<open>\<^verbatim>\<open>np.array(frame)[..., [2, 1, 0]]\<close>: channels 2, 1, 0 of every pixel\<close>
  "select_210 im = map (map (\<lambda>(c0, c1, c2, c3). (c2, c1, c0))) (img_pixels im)"

subsection \<open>File names\<close>

definition digit_char :: "nat \<Rightarrow> char" where
  "digit_char d = char_of (48 + d)"

fun dec :: "nat \<Rightarrow> string" where
  "dec n = (if n < 10 then [digit_char n] else dec (n div 10) @ [digit_char (n mod 10)])"

definition fmt08d :: "nat \<Rightarrow> string" where
  \<comment> \<open>the format \<^verbatim>\<open>{i:08d}\<close>\<close>
  "fmt08d i = replicate (8 - length (dec i)) CHR ''0'' @ dec i"

definition frame_name :: "nat \<Rightarrow> string" where
  "frame_name i = ''frame_'' @ fmt08d i @ ''.png''"

definition mesh_name :: "nat \<Rightarrow> string" where
  "mesh_name i = ''mesh_'' @ fmt08d i @ ''.obj''"

section \<open>The frame loop shared by the three animation functions\<close>

text \<open>
  Lines 45-62, 138-155 and 191-208 are the same code up to the update function:
  for every index the figure is updated and saved to a frame file, the file is read
  back, the video writer is created at index 0, and the frame is handed to it with
  its channels reordered. The local variable \<^verbatim>\<open>video\<close> is unbound until index 0
  has run.
\<close>

definition loop_body ::
  "('fig \<Rightarrow> png_image) \<Rightarrow> (nat \<Rightarrow> 'fig \<Rightarrow> error + 'fig) \<Rightarrow> path \<Rightarrow> path \<Rightarrow> nat \<Rightarrow>
   nat \<Rightarrow> 'fig \<times> nat option \<Rightarrow> world \<Rightarrow> (error + 'fig \<times> nat option) \<times> world" where
  "loop_body rasterize update frames_folder video_name FPS i st w =
     (case update i (fst st) of
        Inl e \<Rightarrow> (Inl e, w)
      | Inr fig \<Rightarrow>
          (let img_filename = frames_folder @ [frame_name i];
               w1 = savefig rasterize fig img_filename w
           in (case Image_open img_filename w1 of
                 Inl e \<Rightarrow> (Inl e, w1)
               | Inr frame \<Rightarrow>
                   (let vw2 =
                          (if i = 0
                           then (let vw = VideoWriter video_name ''MP4V'' FPS (img_size frame) w1
                                 in (Some (fst vw), snd vw))
                           else (snd st, w1))
                    in (case fst vw2 of
                          None \<Rightarrow> (Inl UnboundLocalError, snd vw2)
                        | Some v \<Rightarrow>
                            (Inr (fig, fst vw2), video_write v (select_210 frame) (snd vw2)))))))"

fun frame_loop ::
  "('fig \<Rightarrow> png_image) \<Rightarrow> (nat \<Rightarrow> 'fig \<Rightarrow> error + 'fig) \<Rightarrow> path \<Rightarrow> path \<Rightarrow> nat \<Rightarrow>
   nat list \<Rightarrow> 'fig \<times> nat option \<Rightarrow> world \<Rightarrow> (error + 'fig \<times> nat option) \<times> world" where
  "frame_loop rasterize update frames_folder video_name FPS [] st w = (Inr st, w)"
| "frame_loop rasterize update frames_folder video_name FPS (i # is) st w =
     (case loop_body rasterize update frames_folder video_name FPS i st w of
        (Inl e, w') \<Rightarrow> (Inl e, w')
      | (Inr st', w') \<Rightarrow> frame_loop rasterize update frames_folder video_name FPS is st' w')"

definition render_video ::
  "('fig \<Rightarrow> png_image) \<Rightarrow> (nat \<Rightarrow> 'fig \<Rightarrow> error + 'fig) \<Rightarrow> path \<Rightarrow> nat \<Rightarrow> nat \<Rightarrow> 'fig \<Rightarrow>
   world \<Rightarrow> (error + int) \<times> world" where
  \<comment> \<open>the \<^verbatim>\<open>writer == 'opencv'\<close> branch, for a sequence of \<open>n\<close> snapshots\<close>
  "render_video rasterize update out_folder FPS n fig w =
     (let frames_folder = out_folder @ [''frames''];
          w1 = mkdir_parents frames_folder w;
          video_name = out_folder @ [''video.mp4'']
      in (case frame_loop rasterize update frames_folder video_name FPS [0..<n] (fig, None) w1 of
            (Inl e, w2) \<Rightarrow> (Inl e, w2)
          | (Inr st, w2) \<Rightarrow>
              (case snd st of
                 None \<Rightarrow> (Inl UnboundLocalError, w2)
               | Some v \<Rightarrow> (Inr 0, video_release v w2))))"

section \<open>\<^verbatim>\<open>eta_animation\<close>\<close>

text \<open>
  The title is kept as the value passed to \<^verbatim>\<open>format\<close>, before it is printed
  with four decimals into the template
  \<^verbatim>\<open>Surface elevation ... after t = {:.4f} minutes\<close>.
\<close>

record eta_figure =
  ef_X :: array2
  ef_Y :: array2
  ef_array :: "rat list"
  ef_vmin :: rat
  ef_vmax :: rat
  ef_title_minutes :: "rat option"

definition title_minutes :: "nat \<Rightarrow> rat \<Rightarrow> rat" where
  \<comment> \<open>\<^verbatim>\<open>num*frame_interval/60\<close>\<close>
  "title_minutes num frame_interval = float64 (fmul (float_of_int (int num)) frame_interval / 60)"

definition update_eta :: "array2 list \<Rightarrow> rat \<Rightarrow> nat \<Rightarrow> eta_figure \<Rightarrow> error + eta_figure" where
  "update_eta eta_list frame_interval num fig =
     (if num < length eta_list
      then Inr (fig\<lparr>ef_title_minutes := Some (title_minutes num frame_interval),
                    ef_array := flatten (drop_last2 (eta_list ! num))\<rparr>)
      else Inl IndexError)"

text \<open>
  The figure set-up runs first: \<^verbatim>\<open>eta_list[0]\<close> raises IndexError on an empty sequence,
  then \<^verbatim>\<open>np.abs(eta_list[int(len(eta_list)/2)]).max()\<close> raises ValueError on a zero-size
  snapshot (the index \<^verbatim>\<open>int(len(eta_list)/2)\<close> is \<open>len div 2\<close> for every list that fits in
  memory). The functions of the plotting library are black boxes: \<open>rasterize\<close> turns the
  state of the figure into the image that \<^verbatim>\<open>plt.savefig\<close> writes. In the branch for the
  other writers the animation objects are built without any effect on the outside world,
  and the argument of \<^verbatim>\<open>anim.save\<close> refers to \<^verbatim>\<open>filename\<close>, which is bound nowhere.
\<close>

definition eta_animation ::
  "(eta_figure \<Rightarrow> png_image) \<Rightarrow> array2 \<Rightarrow> array2 \<Rightarrow> array2 list \<Rightarrow> rat \<Rightarrow> path \<Rightarrow> string \<Rightarrow> nat \<Rightarrow>
   world \<Rightarrow> (error + int) \<times> world" where
  "eta_animation rasterize X Y eta_list frame_interval out_folder writer FPS w =
     (case eta_list of
        [] \<Rightarrow> (Inl IndexError, w)
      | eta0 # _ \<Rightarrow>
          (case amax (map abs (flatten (eta_list ! (length eta_list div 2)))) of
             Inl e \<Rightarrow> (Inl e, w)
           | Inr m \<Rightarrow>
               let fig = \<lparr>ef_X = X, ef_Y = Y, ef_array = flatten eta0,
                          ef_vmin = fmul (- float64 (7 / 10)) m, ef_vmax = m,
                          ef_title_minutes = None\<rparr>
               in if writer = ''opencv''
                  then render_video rasterize (update_eta eta_list frame_interval) out_folder FPS
                         (length eta_list) fig w
                  else (Inl NameError, w)))"

section \<open>\<^verbatim>\<open>velocity_animation\<close>\<close>

definition stride :: "nat \<Rightarrow> 'a list \<Rightarrow> 'a list" where
  \<comment> \<open>every \<open>q\<close>-th element, from the first, for \<open>0 < q\<close>\<close>
  "stride q xs = map (\<lambda>k. xs ! (k * q)) [0..<(length xs + q - 1) div q]"

definition slice1 :: "int \<Rightarrow> 'a list \<Rightarrow> 'a list" where
  \<comment> \<open>\<^verbatim>\<open>xs[::q]\<close> for a nonzero step; a negative step runs from the last element\<close>
  "slice1 q xs = (if 0 < q then stride (nat q) xs else stride (nat (- q)) (rev xs))"

definition slice2 :: "int \<Rightarrow> array2 \<Rightarrow> error + array2" where
  \<comment> \<open>\<^verbatim>\<open>a[::q, ::q]\<close>: a zero step raises ValueError\<close>
  "slice2 q a = (if q = 0 then Inl ValueError else Inr (slice1 q (map (slice1 q) a)))"

definition array_div :: "array2 \<Rightarrow> rat \<Rightarrow> array2" where
  \<comment> \<open>\<^verbatim>\<open>a / c\<close> for a nonzero constant\<close>
  "array_div a c = map (map (\<lambda>x. float64 (x / c))) a"

text \<open>
  The arguments of \<^verbatim>\<open>ax.quiver\<close> are evaluated from left to right, so the first slice of
  \<open>X\<close> is taken before \<^verbatim>\<open>u_list[0]\<close> and \<^verbatim>\<open>v_list[0]\<close> are read. The call itself is a
  black box that may reject its arguments: the library raises an error when the arrow
  positions and the components do not fit together. \<open>quiver X Y U V\<close> is \<open>Inr ()\<close> when
  the library accepts the positions \<open>X\<close>, \<open>Y\<close> with the components \<open>U\<close>, \<open>V\<close>, and the
  error it raises otherwise; \<^verbatim>\<open>Q.set_UVC\<close> checks new components against the positions
  of the figure in the same way.
\<close>

type_synonym quiver_check = "array2 \<Rightarrow> array2 \<Rightarrow> array2 \<Rightarrow> array2 \<Rightarrow> error + unit"

definition q_int :: "array2 \<Rightarrow> int" where
  \<comment> \<open>\<^verbatim>\<open>int(0.02 * min(*X.shape))\<close>\<close>
  "q_int X = py_int (fmul (float64 (2 / 100)) (float_of_int (int (min (shape0 X) (shape1 X)))))"

record quiver_figure =
  qf_X :: array2
  qf_Y :: array2
  qf_U :: array2
  qf_V :: array2
  qf_scale :: rat
  qf_title_minutes :: "rat option"

definition update_quiver ::
  "quiver_check \<Rightarrow> array2 list \<Rightarrow> array2 list \<Rightarrow> rat \<Rightarrow> int \<Rightarrow> nat \<Rightarrow> quiver_figure \<Rightarrow>
   error + quiver_figure" where
  "update_quiver quiver u_list v_list frame_interval q num fig =
     (if length u_list \<le> num \<or> length v_list \<le> num then Inl IndexError
      else case slice2 q (u_list ! num) of
             Inl e \<Rightarrow> Inl e
           | Inr u \<Rightarrow>
               (case slice2 q (v_list ! num) of
                  Inl e \<Rightarrow> Inl e
                | Inr v \<Rightarrow>
                    (case quiver (qf_X fig) (qf_Y fig) u v of
                       Inl e \<Rightarrow> Inl e
                     | Inr ok \<Rightarrow>
                         Inr (fig\<lparr>qf_title_minutes := Some (title_minutes num frame_interval),
                                  qf_U := u, qf_V := v\<rparr>))))"

definition velocity_animation ::
  "(quiver_figure \<Rightarrow> png_image) \<Rightarrow> quiver_check \<Rightarrow> array2 \<Rightarrow> array2 \<Rightarrow> array2 list \<Rightarrow> array2 list \<Rightarrow>
   rat \<Rightarrow> path \<Rightarrow> string \<Rightarrow> nat \<Rightarrow> rat \<Rightarrow> world \<Rightarrow> (error + int) \<times> world" where
  "velocity_animation rasterize quiver X Y u_list v_list frame_interval out_folder writer FPS
     arrow_scale w =
     (let q = q_int X
      in case slice2 q X of
           Inl e \<Rightarrow> (Inl e, w)
         | Inr Xq \<Rightarrow>
             (case slice2 q Y of
                Inl e \<Rightarrow> (Inl e, w)
              | Inr Yq \<Rightarrow>
                  (case u_list of
                     [] \<Rightarrow> (Inl IndexError, w)
                   | u0 # _ \<Rightarrow>
                       (case slice2 q u0 of
                          Inl e \<Rightarrow> (Inl e, w)
                        | Inr Uq \<Rightarrow>
                            (case v_list of
                               [] \<Rightarrow> (Inl IndexError, w)
                             | v0 # _ \<Rightarrow>
                                 (case slice2 q v0 of
                                    Inl e \<Rightarrow> (Inl e, w)
                                  | Inr Vq \<Rightarrow>
                                      (case quiver (array_div Xq 1000) (array_div Yq 1000) Uq Vq of
                                         Inl e \<Rightarrow> (Inl e, w)
                                       | Inr ok \<Rightarrow>
                                           (let fig = \<lparr>qf_X = array_div Xq 1000,
                                                       qf_Y = array_div Yq 1000,
                                                       qf_U = Uq, qf_V = Vq, qf_scale = arrow_scale,
                                                       qf_title_minutes = None\<rparr>
                                            in if writer = ''opencv''
                                               then render_video rasterize
                                                      (update_quiver quiver u_list v_list
                                                         frame_interval q)
                                                      out_folder FPS (length u_list) fig w
                                               else (Inl NameError, w)))))))))"

section \<open>\<^verbatim>\<open>eta_animation3D\<close>\<close>

record surface_figure =
  sf_X :: array2
  sf_Y :: array2
  sf_Z :: array2
  sf_vmin :: "rat option"
  sf_vmax :: "rat option"
  sf_title_minutes :: "rat option"
  sf_xlim :: "(rat \<times> rat) option"
  sf_ylim :: "(rat \<times> rat) option"
  sf_zlim :: "(rat \<times> rat) option"

text \<open>
  \<^verbatim>\<open>np.array(eta_list)\<close> stacks the snapshots, which have one common shape;
  its minimum and maximum run over every value of every snapshot and raise ValueError
  when there is no value at all. \<^verbatim>\<open>update_surf\<close> clears the axes and draws the surface
  anew at every index.
\<close>

definition axis_limits :: "array2 \<Rightarrow> error + rat \<times> rat" where
  \<comment> \<open>\<^verbatim>\<open>(X.min()/1000, X.max()/1000)\<close>\<close>
  "axis_limits X =
     (case amin (flatten X) of
        Inl e \<Rightarrow> Inl e
      | Inr lo \<Rightarrow>
          (case amax (flatten X) of
             Inl e \<Rightarrow> Inl e
           | Inr hi \<Rightarrow> Inr (float64 (lo / 1000), float64 (hi / 1000))))"

definition update_surf ::
  "array2 \<Rightarrow> array2 \<Rightarrow> array2 list \<Rightarrow> rat \<Rightarrow> rat \<Rightarrow> rat \<Rightarrow> nat \<Rightarrow> surface_figure \<Rightarrow>
   error + surface_figure" where
  "update_surf X Y eta_list frame_interval vmin vmax num fig =
     (if length eta_list \<le> num then Inl IndexError
      else case axis_limits X of
             Inl e \<Rightarrow> Inl e
           | Inr xl \<Rightarrow>
               (case axis_limits Y of
                  Inl e \<Rightarrow> Inl e
                | Inr yl \<Rightarrow>
                    Inr \<lparr>sf_X = array_div X 1000, sf_Y = array_div Y 1000,
                         sf_Z = eta_list ! num, sf_vmin = Some vmin, sf_vmax = Some vmax,
                         sf_title_minutes = Some (title_minutes num frame_interval),
                         sf_xlim = Some xl, sf_ylim = Some yl,
                         sf_zlim = Some (- float64 (3 / 10), float64 (7 / 10))\<rparr>))"

definition eta_animation3D ::
  "(surface_figure \<Rightarrow> png_image) \<Rightarrow> array2 \<Rightarrow> array2 \<Rightarrow> array2 list \<Rightarrow> rat \<Rightarrow> path \<Rightarrow> string \<Rightarrow> nat \<Rightarrow>
   world \<Rightarrow> (error + int) \<times> world" where
  "eta_animation3D rasterize X Y eta_list frame_interval out_folder writer FPS w =
     (case eta_list of
        [] \<Rightarrow> (Inl IndexError, w)
      | eta0 # _ \<Rightarrow>
          (let fig = \<lparr>sf_X = X, sf_Y = Y, sf_Z = eta0, sf_vmin = None, sf_vmax = None,
                      sf_title_minutes = None, sf_xlim = None, sf_ylim = None, sf_zlim = None\<rparr>
           in (case amin (concat (map flatten eta_list)) of
                 Inl e \<Rightarrow> (Inl e, w)
               | Inr vmin \<Rightarrow>
                   (case amax (concat (map flatten eta_list)) of
                      Inl e \<Rightarrow> (Inl e, w)
                    | Inr vmax \<Rightarrow>
                        if writer = ''opencv''
                        then render_video rasterize
                               (update_surf X Y eta_list frame_interval vmin vmax)
                               out_folder FPS (length eta_list) fig w
                        else (Inl NameError, w)))))"

section \<open>\<^verbatim>\<open>eta_meshes\<close>\<close>

type_synonym point3 = "rat \<times> rat \<times> rat"

type_synonym bounds = "point3 \<times> point3"

definition axis_resolutions :: "int \<Rightarrow> bounds \<Rightarrow> error + int \<times> int \<times> int" where
  \<comment> \<open>lines 84-91 of \<^verbatim>\<open>get_mesh\<close>\<close>
  "axis_resolutions res b =
     (case b of ((x_min, y_min, z_min), (x_max, y_max, z_max)) \<Rightarrow>
        (let rg = max (fsub x_max x_min) (max (fsub y_max y_min) (fsub z_max z_min))
         in (case fdiv (float_of_int res) rg of
               Inl e \<Rightarrow> Inl e
             | Inr k \<Rightarrow>
                 Inr (py_int (fmul k (fsub x_max x_min)),
                      py_int (fmul k (fsub y_max y_min)),
                      py_int (fmul k (fsub z_max z_min))))))"

definition py_index :: "nat \<Rightarrow> int \<Rightarrow> error + nat" where
  \<comment> \<open>an index into an axis of length \<open>n\<close>: negative indices count from the end\<close>
  "py_index n i =
     (if 0 \<le> i \<and> i < int n then Inr (nat i)
      else if - int n \<le> i \<and> i < 0 then Inr (nat (int n + i))
      else Inl IndexError)"

definition get2 :: "array2 \<Rightarrow> int \<Rightarrow> int \<Rightarrow> error + rat" where
  \<comment> \<open>\<^verbatim>\<open>a[i, j]\<close>\<close>
  "get2 a i j =
     (case py_index (shape0 a) i of
        Inl e \<Rightarrow> Inl e
      | Inr i' \<Rightarrow>
          (case py_index (length (a ! i')) j of
             Inl e \<Rightarrow> Inl e
           | Inr j' \<Rightarrow> Inr (a ! i' ! j')))"

definition sdf_index :: "nat \<Rightarrow> rat \<Rightarrow> rat \<Rightarrow> rat \<Rightarrow> error + int" where
  \<comment> \<open>\<^verbatim>\<open>int((n - 1) * (x - x_min) / (x_max - x_min))\<close>\<close>
  "sdf_index n x x_min x_max =
     (case fdiv (fmul (float_of_int (int n - 1)) (fsub x x_min)) (fsub x_max x_min) of
        Inl e \<Rightarrow> Inl e
      | Inr c \<Rightarrow> Inr (py_int c))"

definition sdf :: "array2 \<Rightarrow> bounds \<Rightarrow> rat \<Rightarrow> rat \<Rightarrow> rat \<Rightarrow> error + rat" where
  "sdf eta b x y z =
     (case b of ((x_min, y_min, z_min), (x_max, y_max, z_max)) \<Rightarrow>
        (case sdf_index (shape0 eta) x x_min x_max of
           Inl e \<Rightarrow> Inl e
         | Inr col \<Rightarrow>
             (case sdf_index (shape1 eta) y y_min y_max of
                Inl e \<Rightarrow> Inl e
              | Inr row \<Rightarrow>
                  (case get2 eta col row of
                     Inl e \<Rightarrow> Inl e
                   | Inr h \<Rightarrow> Inr (fsub h z)))))"

text \<open>
  \<^verbatim>\<open>mcubes.marching_cubes_func\<close> is a black box: a function \<open>mc\<close> from the two corners,
  the three resolutions, the scalar field and the level to a mesh or an error.
\<close>

type_synonym marching_cubes =
  "point3 \<Rightarrow> point3 \<Rightarrow> int \<Rightarrow> int \<Rightarrow> int \<Rightarrow> (rat \<Rightarrow> rat \<Rightarrow> rat \<Rightarrow> error + rat) \<Rightarrow> rat \<Rightarrow> error + mesh"

definition export_obj :: "mesh \<Rightarrow> path \<Rightarrow> world \<Rightarrow> world" where
  "export_obj m p w = w\<lparr>files := (files w)(p \<mapsto> Obj m)\<rparr>"

definition extract_mesh :: "marching_cubes \<Rightarrow> array2 \<Rightarrow> bounds \<Rightarrow> int \<Rightarrow> error + mesh" where
  \<comment> \<open>lines 84-101 of \<^verbatim>\<open>get_mesh\<close>: the mesh of one snapshot\<close>
  "extract_mesh mc eta b res =
     (case axis_resolutions res b of
        Inl e \<Rightarrow> Inl e
      | Inr (resx, resy, resz) \<Rightarrow> mc (fst b) (snd b) resx resy resz (sdf eta b) 0)"

definition get_mesh ::
  "marching_cubes \<Rightarrow> nat \<Rightarrow> array2 \<Rightarrow> bounds \<Rightarrow> int \<Rightarrow> path \<Rightarrow> world \<Rightarrow> (error + unit) \<times> world" where
  "get_mesh mc i eta b res out_folder w =
     (case extract_mesh mc eta b res of
        Inl e \<Rightarrow> (Inl e, w)
      | Inr m \<Rightarrow> (Inr (), export_obj m (out_folder @ [mesh_name i]) w))"

text \<open>
  The tasks of the worker pool share nothing but the output directory, and each one
  writes a single file. The order in which the pool runs them is not fixed: it is the
  argument \<open>sched\<close>, a permutation of \<^verbatim>\<open>range(n)\<close>. The first task that fails aborts
  the batch.
\<close>

fun run_tasks ::
  "marching_cubes \<Rightarrow> array2 list \<Rightarrow> bounds \<Rightarrow> int \<Rightarrow> path \<Rightarrow> nat list \<Rightarrow> world \<Rightarrow>
   (error + unit) \<times> world" where
  "run_tasks mc eta_list b res meshes_folder [] w = (Inr (), w)"
| "run_tasks mc eta_list b res meshes_folder (i # is) w =
     (if length eta_list \<le> i then (Inl IndexError, w)
      else case get_mesh mc i (eta_list ! i) b res meshes_folder w of
             (Inl e, w') \<Rightarrow> (Inl e, w')
           | (Inr u, w') \<Rightarrow> run_tasks mc eta_list b res meshes_folder is w')"

definition eta_meshes ::
  "marching_cubes \<Rightarrow> nat list \<Rightarrow> array2 list \<Rightarrow> bounds \<Rightarrow> int \<Rightarrow> path \<Rightarrow> world \<Rightarrow>
   (error + int) \<times> world" where
  "eta_meshes mc sched eta_list b res meshes_folder w =
     (case run_tasks mc eta_list b res meshes_folder sched (mkdir_parents meshes_folder w) of
        (Inl e, w') \<Rightarrow> (Inl e, w')
      | (Inr u, w') \<Rightarrow> (Inr 0, w'))"

section \<open>Auxiliary definitions for the statements\<close>

text \<open>Reading a decimal string back as a number.\<close>

definition undigit :: "char \<Rightarrow> nat" where
  "undigit c = of_char c - 48"

definition undec :: "string \<Rightarrow> nat" where
  "undec s = foldl (\<lambda>a c. 10 * a + undigit c) 0 s"

text \<open>
  The frame files after the first \<open>k\<close> indices, and the video writer after \<open>k\<close> frames,
  when \<open>img i\<close> is the image saved at index \<open>i\<close>.
\<close>

primrec frame_files :: "(nat \<Rightarrow> png_image) \<Rightarrow> path \<Rightarrow> nat \<Rightarrow> (path \<rightharpoonup> file_content) \<Rightarrow> (path \<rightharpoonup> file_content)" where
  "frame_files img folder 0 m = m"
| "frame_files img folder (Suc k) m = (frame_files img folder k m)(folder @ [frame_name k] \<mapsto> Png (img k))"

definition new_writer :: "path \<Rightarrow> nat \<Rightarrow> (nat \<Rightarrow> png_image) \<Rightarrow> nat \<Rightarrow> bool \<Rightarrow> video_writer" where
  "new_writer video_name FPS img k rel =
     \<lparr>vw_filename = video_name, vw_fourcc = ''MP4V'', vw_fps = FPS, vw_frame_size = img_size (img 0),
      vw_frames = map (\<lambda>i. select_210 (img i)) [0..<k], vw_released = rel\<rparr>"

text \<open>
  The figure as \<^verbatim>\<open>update_eta\<close> leaves it at index \<open>i\<close>, when \<open>m\<close> is the value of
  \<^verbatim>\<open>np.abs(eta_list[int(len(eta_list)/2)]).max()\<close>.
\<close>

definition eta_frame :: "array2 \<Rightarrow> array2 \<Rightarrow> array2 list \<Rightarrow> rat \<Rightarrow> rat \<Rightarrow> nat \<Rightarrow> eta_figure" where
  "eta_frame X Y eta_list frame_interval m i =
     \<lparr>ef_X = X, ef_Y = Y, ef_array = flatten (drop_last2 (eta_list ! i)),
      ef_vmin = fmul (- float64 (7 / 10)) m, ef_vmax = m,
      ef_title_minutes = Some (title_minutes i frame_interval)\<rparr>"

text \<open>
  The figure as \<^verbatim>\<open>update_surf\<close> leaves it at index \<open>i\<close>, for the colour bounds
  \<open>vmin\<close>, \<open>vmax\<close> and the axis limits \<open>xl\<close>, \<open>yl\<close>.
\<close>

definition surf_frame ::
  "array2 \<Rightarrow> array2 \<Rightarrow> array2 list \<Rightarrow> rat \<Rightarrow> rat \<Rightarrow> rat \<Rightarrow> rat \<times> rat \<Rightarrow> rat \<times> rat \<Rightarrow> nat \<Rightarrow>
   surface_figure" where
  "surf_frame X Y eta_list frame_interval vmin vmax xl yl i =
     \<lparr>sf_X = array_div X 1000, sf_Y = array_div Y 1000, sf_Z = eta_list ! i,
      sf_vmin = Some vmin, sf_vmax = Some vmax,
      sf_title_minutes = Some (title_minutes i frame_interval),
      sf_xlim = Some xl, sf_ylim = Some yl,
      sf_zlim = Some (- float64 (3 / 10), float64 (7 / 10))\<rparr>"

text \<open>The mesh files after the tasks of \<open>sched\<close> have run, when task \<open>i\<close> writes the mesh \<open>M i\<close>.\<close>

primrec mesh_files :: "(nat \<Rightarrow> mesh) \<Rightarrow> path \<Rightarrow> nat list \<Rightarrow> (path \<rightharpoonup> file_content) \<Rightarrow> (path \<rightharpoonup> file_content)" where
  "mesh_files M folder [] m = m"
| "mesh_files M folder (i # is) m = mesh_files M folder is (m(folder @ [mesh_name i] \<mapsto> Obj (M i)))"



text \<open>
  The slice \<^verbatim>\<open>a[::q, ::q]\<close> for a nonzero step, and the input contract of the animation
  functions: the grid has at least two rows and two columns, all rows have one length,
  and \<open>Y\<close> and every snapshot have the shape of \<open>X\<close>.
\<close>

definition strided :: "int \<Rightarrow> array2 \<Rightarrow> array2" where
  "strided q a = slice1 q (map (slice1 q) a)"

definition same_shape :: "array2 \<Rightarrow> array2 \<Rightarrow> bool" where
  "same_shape a b \<longleftrightarrow> map length a = map length b"

definition grid_contract :: "array2 \<Rightarrow> array2 \<Rightarrow> array2 list \<Rightarrow> bool" where
  "grid_contract X Y snapshots \<longleftrightarrow>
     2 \<le> shape0 X \<and> 2 \<le> shape1 X \<and> list_all (\<lambda>r. length r = shape1 X) X
     \<and> same_shape X Y \<and> list_all (same_shape X) snapshots"


section \<open>Lemmas on file names\<close>

declare dec.simps [simp del]

lemma undigit_digit: "d < 10 \<Longrightarrow> undigit (digit_char d) = d"
  by (simp add: undigit_def digit_char_def)

lemma undec_snoc: "undec (s @ [c]) = 10 * undec s + undigit c"
  by (simp add: undec_def)

lemma undec_dec: "undec (dec n) = n"
proof (induction n rule: dec.induct)
  case (1 n)
  show ?case
  proof (cases "n < 10")
    case True
    then show ?thesis
      by (subst dec.simps) (simp add: undec_def undigit_digit)
  next
    case False
    with 1 have "undec (dec (n div 10)) = n div 10" by simp
    with False show ?thesis
      by (subst dec.simps) (simp add: undec_snoc undigit_digit)
  qed
qed

lemma undec_zeros: "undec (replicate k CHR ''0'' @ s) = undec s"
proof -
  have "foldl (\<lambda>a c. 10 * a + undigit c) 0 (replicate k CHR ''0'') = 0"
    by (induction k) (simp_all add: undigit_def)
  then show ?thesis by (simp add: undec_def)
qed

lemma undec_fmt08d: "undec (fmt08d i) = i"
  by (simp add: fmt08d_def undec_zeros undec_dec)

lemma fmt08d_inj: "fmt08d i = fmt08d j \<Longrightarrow> i = j"
  by (metis undec_fmt08d)

lemma frame_name_inj: "frame_name i = frame_name j \<Longrightarrow> i = j"
  by (simp add: frame_name_def fmt08d_inj)

lemma mesh_name_inj: "mesh_name i = mesh_name j \<Longrightarrow> i = j"
  by (simp add: mesh_name_def fmt08d_inj)

lemma dec_length_le: "0 < k \<Longrightarrow> n < 10 ^ k \<Longrightarrow> length (dec n) \<le> k"
proof (induction k arbitrary: n)
  case 0
  then show ?case by simp
next
  case (Suc k)
  show ?case
  proof (cases "n < 10")
    case True
    then show ?thesis by (subst dec.simps) simp
  next
    case False
    then have k: "0 < k" using Suc.prems by (cases k) auto
    have "n div 10 < 10 ^ k" using Suc.prems by (simp add: less_mult_imp_div_less mult.commute)
    with Suc.IH k have "length (dec (n div 10)) \<le> k" by blast
    with False show ?thesis by (subst dec.simps) simp
  qed
qed

lemma length_fmt08d: "i < 10 ^ 8 \<Longrightarrow> length (fmt08d i) = 8"
  using dec_length_le [of 8 i] by (simp add: fmt08d_def)

section \<open>The frame loop\<close>

lemma loop_body_first:
  assumes "update 0 g = Inr f"
  shows "loop_body R update ff vn FPS 0 (g, None) \<lparr>dirs = D, files = m, writers = ws\<rparr> =
           (Inr (f, Some (length ws)),
            \<lparr>dirs = D, files = m(ff @ [frame_name 0] \<mapsto> Png (R f)),
             writers = ws @ [\<lparr>vw_filename = vn, vw_fourcc = ''MP4V'', vw_fps = FPS,
                               vw_frame_size = img_size (R f), vw_frames = [select_210 (R f)],
                               vw_released = False\<rparr>]\<rparr>)"
  using assms
  by (simp add: loop_body_def savefig_def Image_open_def VideoWriter_def video_write_def Let_def)

lemma loop_body_next:
  assumes "update i g = Inr f" and "0 < i"
  shows "loop_body R update ff vn FPS i (g, Some (length ws)) \<lparr>dirs = D, files = m, writers = ws @ [wr]\<rparr> =
           (Inr (f, Some (length ws)),
            \<lparr>dirs = D, files = m(ff @ [frame_name i] \<mapsto> Png (R f)),
             writers = ws @ [wr\<lparr>vw_frames := vw_frames wr @ [select_210 (R f)]\<rparr>]\<rparr>)"
  using assms
  by (simp add: loop_body_def savefig_def Image_open_def video_write_def Let_def)

lemma frame_loop_from:
  assumes upd: "\<And>i g. i < n \<Longrightarrow> I g \<Longrightarrow> update i g = Inr (F i)"
      and inv: "\<And>i. i < n \<Longrightarrow> I (F i)"
  shows "0 < k \<Longrightarrow> k \<le> n \<Longrightarrow> I g \<Longrightarrow> (k = n \<longrightarrow> g = F (n - 1)) \<Longrightarrow>
         frame_loop R update ff vn FPS [k..<n] (g, Some (length ws))
           \<lparr>dirs = D, files = frame_files (\<lambda>i. R (F i)) ff k m,
            writers = ws @ [new_writer vn FPS (\<lambda>i. R (F i)) k False]\<rparr> =
         (Inr (F (n - 1), Some (length ws)),
          \<lparr>dirs = D, files = frame_files (\<lambda>i. R (F i)) ff n m,
           writers = ws @ [new_writer vn FPS (\<lambda>i. R (F i)) n False]\<rparr>)"
proof (induction "n - k" arbitrary: k g)
  case 0
  then show ?case by simp
next
  case (Suc d)
  then have kn: "k < n" by simp
  have u: "update k g = Inr (F k)" using upd kn Suc.prems by blast
  have step: "loop_body R update ff vn FPS k (g, Some (length ws))
           \<lparr>dirs = D, files = frame_files (\<lambda>i. R (F i)) ff k m,
            writers = ws @ [new_writer vn FPS (\<lambda>i. R (F i)) k False]\<rparr> =
          (Inr (F k, Some (length ws)),
           \<lparr>dirs = D, files = frame_files (\<lambda>i. R (F i)) ff (Suc k) m,
            writers = ws @ [new_writer vn FPS (\<lambda>i. R (F i)) (Suc k) False]\<rparr>)"
    using loop_body_next [where update = update and i = k and g = g and f = "F k" and R = R
        and ff = ff and vn = vn and FPS = FPS and ws = ws and D = D, OF u \<open>0 < k\<close>]
    by (simp add: new_writer_def)
  have d: "d = n - Suc k" using Suc.hyps by simp
  have rest: "frame_loop R update ff vn FPS [Suc k..<n] (F k, Some (length ws))
           \<lparr>dirs = D, files = frame_files (\<lambda>i. R (F i)) ff (Suc k) m,
            writers = ws @ [new_writer vn FPS (\<lambda>i. R (F i)) (Suc k) False]\<rparr> =
         (Inr (F (n - 1), Some (length ws)),
          \<lparr>dirs = D, files = frame_files (\<lambda>i. R (F i)) ff n m,
           writers = ws @ [new_writer vn FPS (\<lambda>i. R (F i)) n False]\<rparr>)"
  proof (rule Suc.hyps(1) [OF d])
    show "0 < Suc k" by simp
    show "Suc k \<le> n" using kn by simp
    show "I (F k)" by (rule inv [OF kn])
    show "Suc k = n \<longrightarrow> F k = F (n - 1)" by auto
  qed
  show ?case
    apply (subst upt_conv_Cons [OF kn])
    apply (subst frame_loop.simps(2))
    apply (subst step)
    apply (simp only: rest prod.case sum.case)
    done
qed

lemma frame_loop_all:
  assumes upd: "\<And>i g. i < n \<Longrightarrow> I g \<Longrightarrow> update i g = Inr (F i)"
      and inv: "\<And>i. i < n \<Longrightarrow> I (F i)"
      and g: "I g" and n: "0 < n"
  shows "frame_loop R update ff vn FPS [0..<n] (g, None) \<lparr>dirs = D, files = m, writers = ws\<rparr> =
         (Inr (F (n - 1), Some (length ws)),
          \<lparr>dirs = D, files = frame_files (\<lambda>i. R (F i)) ff n m,
           writers = ws @ [new_writer vn FPS (\<lambda>i. R (F i)) n False]\<rparr>)"
proof -
  have u: "update 0 g = Inr (F 0)" using upd n g by blast
  have first: "loop_body R update ff vn FPS 0 (g, None) \<lparr>dirs = D, files = m, writers = ws\<rparr> =
           (Inr (F 0, Some (length ws)),
            \<lparr>dirs = D, files = frame_files (\<lambda>i. R (F i)) ff 1 m,
             writers = ws @ [new_writer vn FPS (\<lambda>i. R (F i)) 1 False]\<rparr>)"
    using loop_body_first [where update = update and g = g and f = "F 0" and R = R
        and ff = ff and vn = vn and FPS = FPS and ws = ws and D = D and m = m, OF u] by (simp add: new_writer_def)
  have rest: "frame_loop R update ff vn FPS [1..<n] (F 0, Some (length ws))
           \<lparr>dirs = D, files = frame_files (\<lambda>i. R (F i)) ff 1 m,
            writers = ws @ [new_writer vn FPS (\<lambda>i. R (F i)) 1 False]\<rparr> =
         (Inr (F (n - 1), Some (length ws)),
          \<lparr>dirs = D, files = frame_files (\<lambda>i. R (F i)) ff n m,
           writers = ws @ [new_writer vn FPS (\<lambda>i. R (F i)) n False]\<rparr>)"
  proof (rule frame_loop_from [where I = I])
    show "\<And>i g. i < n \<Longrightarrow> I g \<Longrightarrow> update i g = Inr (F i)" by (rule upd)
    show "\<And>i. i < n \<Longrightarrow> I (F i)" by (rule inv)
    show "0 < (1::nat)" by simp
    show "1 \<le> n" using n by simp
    show "I (F 0)" by (rule inv [OF n])
    show "1 = n \<longrightarrow> F 0 = F (n - 1)" by auto
  qed
  show ?thesis
    apply (subst upt_conv_Cons [OF n])
    apply (subst frame_loop.simps(2))
    apply (subst first)
    apply (simp only: rest prod.case sum.case One_nat_def [symmetric])
    done
qed

lemma render_video_run:
  assumes upd: "\<And>i g. i < n \<Longrightarrow> I g \<Longrightarrow> update i g = Inr (F i)"
      and inv: "\<And>i. i < n \<Longrightarrow> I (F i)"
      and g: "I g" and n: "0 < n"
  shows "render_video R update out FPS n g w =
         (Inr 0,
          \<lparr>dirs = dirs (mkdir_parents (out @ [''frames'']) w),
           files = frame_files (\<lambda>i. R (F i)) (out @ [''frames'']) n (files w),
           writers = writers w @ [new_writer (out @ [''video.mp4'']) FPS (\<lambda>i. R (F i)) n True]\<rparr>)"
proof -
  have w: "mkdir_parents (out @ [''frames'']) w =
        \<lparr>dirs = dirs (mkdir_parents (out @ [''frames'']) w), files = files w, writers = writers w\<rparr>"
    by (simp add: mkdir_parents_def)
  show ?thesis
    unfolding render_video_def Let_def
    apply (subst w)
    apply (subst frame_loop_all [where update = update and I = I and F = F and n = n and g = g])
    using upd inv g n apply blast
    using upd inv g n apply blast
    using upd inv g n apply blast
    using upd inv g n apply blast
    apply (simp_all add: video_release_def new_writer_def)
    done
qed

lemma frame_files_miss:
  "(\<And>i. i < k \<Longrightarrow> p \<noteq> ff @ [frame_name i]) \<Longrightarrow> frame_files img ff k m p = m p"
  by (induction k) auto

lemma frame_files_hit:
  "i < k \<Longrightarrow> frame_files img ff k m (ff @ [frame_name i]) = Some (Png (img i))"
proof (induction k)
  case 0
  then show ?case by simp
next
  case (Suc k)
  show ?case
  proof (cases "i = k")
    case True
    then show ?thesis by simp
  next
    case False
    then have "i < k" using Suc.prems by simp
    moreover have "frame_name i \<noteq> frame_name k" using False frame_name_inj by blast
    ultimately show ?thesis using Suc.IH by simp
  qed
qed

lemma amax_nonempty: "xs \<noteq> [] \<Longrightarrow> amax xs = Inr (Max (set xs))"
proof (cases xs)
  case Nil
  assume "xs \<noteq> []"
  with Nil show ?thesis by simp
next
  case (Cons a list)
  then show ?thesis using Max.set_eq_fold [of a list] by (simp add: amax_def)
qed

lemma amin_nonempty: "xs \<noteq> [] \<Longrightarrow> amin xs = Inr (Min (set xs))"
proof (cases xs)
  case Nil
  assume "xs \<noteq> []"
  with Nil show ?thesis by simp
next
  case (Cons a list)
  then show ?thesis using Min.set_eq_fold [of a list] by (simp add: amin_def)
qed

lemma eta_animation_run:
  assumes ne: "eta_list \<noteq> []"
      and am: "amax (map abs (flatten (eta_list ! (length eta_list div 2)))) = Inr m"
  shows "eta_animation R X Y eta_list frame_interval out ''opencv'' FPS w =
         (Inr 0,
          \<lparr>dirs = dirs (mkdir_parents (out @ [''frames'']) w),
           files = frame_files (\<lambda>i. R (eta_frame X Y eta_list frame_interval m i)) (out @ [''frames''])
                     (length eta_list) (files w),
           writers = writers w @
             [new_writer (out @ [''video.mp4'']) FPS
                (\<lambda>i. R (eta_frame X Y eta_list frame_interval m i)) (length eta_list) True]\<rparr>)"
proof -
  obtain eta0 rest where el: "eta_list = eta0 # rest" using ne by (cases eta_list) auto
  let ?I = "\<lambda>g. ef_X g = X \<and> ef_Y g = Y \<and> ef_vmin g = fmul (- float64 (7 / 10)) m \<and> ef_vmax g = m"
  let ?fig = "\<lparr>ef_X = X, ef_Y = Y, ef_array = flatten eta0,
               ef_vmin = fmul (- float64 (7 / 10)) m, ef_vmax = m, ef_title_minutes = None\<rparr>"
  have run: "render_video R (update_eta eta_list frame_interval) out FPS (length eta_list) ?fig w =
         (Inr 0,
          \<lparr>dirs = dirs (mkdir_parents (out @ [''frames'']) w),
           files = frame_files (\<lambda>i. R (eta_frame X Y eta_list frame_interval m i)) (out @ [''frames''])
                     (length eta_list) (files w),
           writers = writers w @
             [new_writer (out @ [''video.mp4'']) FPS
                (\<lambda>i. R (eta_frame X Y eta_list frame_interval m i)) (length eta_list) True]\<rparr>)"
  proof (rule render_video_run [where I = ?I])
    show "\<And>i g. i < length eta_list \<Longrightarrow> ?I g \<Longrightarrow>
            update_eta eta_list frame_interval i g = Inr (eta_frame X Y eta_list frame_interval m i)"
      by (simp add: update_eta_def eta_frame_def)
    show "\<And>i. i < length eta_list \<Longrightarrow> ?I (eta_frame X Y eta_list frame_interval m i)"
      by (simp add: eta_frame_def)
    show "?I ?fig" by simp
    show "0 < length eta_list" using ne by simp
  qed
  have unfold: "eta_animation R X Y eta_list frame_interval out ''opencv'' FPS w =
      render_video R (update_eta eta_list frame_interval) out FPS (length eta_list) ?fig w"
    using el am by (simp add: eta_animation_def)
  show ?thesis
    by (simp only: unfold run)
qed

lemma select_210_pixel:
  assumes "y < length (img_pixels im)" and "x < length (img_pixels im ! y)"
      and "img_pixels im ! y ! x = (r, g, b, a)"
  shows "select_210 im ! y ! x = (b, g, r)"
  using assms by (simp add: select_210_def)

lemma loop_body_writers_later:
  "0 < i \<Longrightarrow> length (writers (snd (loop_body R update ff vn FPS i st w))) = length (writers w)"
  by (simp add: loop_body_def savefig_def Image_open_def video_write_def Let_def
      split: sum.splits option.splits)

lemma card_frame_paths: "card ((\<lambda>i. out @ [''frames'', frame_name i]) ` {..<n}) = n"
proof -
  have "inj_on (\<lambda>i. out @ [''frames'', frame_name i]) {..<n}"
    by (rule inj_onI) (simp add: frame_name_inj)
  then show ?thesis by (simp add: card_image)
qed

lemma eta_animation_files:
  assumes ne: "eta_list \<noteq> []"
      and am: "amax (map abs (flatten (eta_list ! (length eta_list div 2)))) = Inr m"
  shows "i < length eta_list \<Longrightarrow>
           files (snd (eta_animation R X Y eta_list frame_interval out ''opencv'' FPS w))
             (out @ [''frames'', frame_name i]) =
           Some (Png (R (eta_frame X Y eta_list frame_interval m i)))"
    and "p \<notin> (\<lambda>i. out @ [''frames'', frame_name i]) ` {..<length eta_list} \<Longrightarrow>
           files (snd (eta_animation R X Y eta_list frame_interval out ''opencv'' FPS w)) p = files w p"
proof -
  note run = eta_animation_run [OF ne am, where R = R and X = X and Y = Y
      and frame_interval = frame_interval and out = out and FPS = FPS and w = w]
  show "i < length eta_list \<Longrightarrow>
           files (snd (eta_animation R X Y eta_list frame_interval out ''opencv'' FPS w))
             (out @ [''frames'', frame_name i]) =
           Some (Png (R (eta_frame X Y eta_list frame_interval m i)))"
    using frame_files_hit [of i "length eta_list" "\<lambda>i. R (eta_frame X Y eta_list frame_interval m i)"
        "out @ [''frames'']" "files w"]
    by (simp add: run)
  show "p \<notin> (\<lambda>i. out @ [''frames'', frame_name i]) ` {..<length eta_list} \<Longrightarrow>
           files (snd (eta_animation R X Y eta_list frame_interval out ''opencv'' FPS w)) p = files w p"
    using frame_files_miss [of "length eta_list" p "out @ [''frames'']"
        "\<lambda>i. R (eta_frame X Y eta_list frame_interval m i)" "files w"]
    by (auto simp add: run)
qed

section \<open>Lemmas on double-precision rounding\<close>

lemma pow2_powi: "pow2 k = 2 powi k"
  by (simp add: pow2_def power_int_def field_simps)

lemma pow2_pos: "0 < pow2 k"
  by (simp add: pow2_powi)

lemma pow2_add: "pow2 (a + b) = pow2 a * pow2 b"
  by (simp add: pow2_powi power_int_add)

lemma pow2_mono: "a \<le> b \<Longrightarrow> pow2 a \<le> pow2 b"
  by (simp add: pow2_powi power_int_increasing)

lemma pow2_less_cancel: "pow2 a < pow2 b \<Longrightarrow> a < b"
  using pow2_mono [of b a] by (cases "a < b") auto

lemma pow2_nat: "pow2 (int n) = 2 ^ n"
  by (simp add: pow2_def)

lemma pow2_shift: "pow2 (e + int k) = pow2 e * 2 ^ k"
  by (simp add: pow2_add pow2_nat)

lemma ilog2_bounds:
  assumes "0 < x"
  shows "pow2 (ilog2 x) \<le> x \<and> x < pow2 (ilog2 x + 1)"
proof (cases "1 \<le> x")
  case True
  define n where "n = \<lfloor>x\<rfloor>"
  have n1: "1 \<le> n" using True by (simp add: n_def le_floor_iff)
  have bl: "2 ^ nat (bitlen n - 1) \<le> n \<and> n < 2 ^ nat (bitlen n)"
    using bitlen_bounds [of n] n1 by simp
  have blpos: "1 \<le> bitlen n"
  proof (rule ccontr)
    assume "\<not> 1 \<le> bitlen n"
    then have "bitlen n = 0" using bitlen_nonneg [of n] by simp
    with bl n1 show False by simp
  qed
  have il: "ilog2 x = bitlen n - 1" using True by (simp add: ilog2_def n_def)
  have lo: "pow2 (ilog2 x) \<le> x"
  proof -
    have "pow2 (ilog2 x) = of_int (2 ^ nat (bitlen n - 1))"
      using blpos by (simp add: il pow2_def)
    also have "\<dots> \<le> of_int n" using bl by (simp only: of_int_le_iff)
    also have "\<dots> \<le> x" by (simp add: n_def)
    finally show ?thesis .
  qed
  have hi: "x < pow2 (ilog2 x + 1)"
  proof -
    have "x < of_int (n + 1)" using floor_correct [of x] by (simp add: n_def)
    also have "\<dots> \<le> of_int (2 ^ nat (bitlen n))" using bl by (simp only: of_int_le_iff) simp
    also have "\<dots> = pow2 (ilog2 x + 1)" using blpos by (simp add: il pow2_def)
    finally show ?thesis .
  qed
  show ?thesis using lo hi by simp
next
  case False
  then have x1: "x < 1" by simp
  define y where "y = 1 / x"
  have y1: "1 < y" using assms x1 by (simp add: y_def)
  define c where "c = \<lceil>y\<rceil>"
  have c2: "2 \<le> c" using y1 by (simp add: c_def)
  define k where "k = bitlen (c - 1)"
  have bl: "2 ^ nat (k - 1) \<le> c - 1 \<and> c - 1 < 2 ^ nat k"
    using bitlen_bounds [of "c - 1"] c2 by (simp add: k_def)
  have kpos: "1 \<le> k"
  proof (rule ccontr)
    assume "\<not> 1 \<le> k"
    then have "k = 0" using bitlen_nonneg [of "c - 1"] by (simp add: k_def)
    with bl c2 show False by simp
  qed
  have il: "ilog2 x = - k" using False by (simp add: ilog2_def k_def c_def y_def)
  have ylo: "of_int (2 ^ nat (k - 1)) < y"
  proof -
    have "of_int (2 ^ nat (k - 1)) \<le> (of_int (c - 1) :: rat)" using bl by (simp only: of_int_le_iff)
    also have "\<dots> < y" unfolding c_def by (simp add: less_ceiling_iff [symmetric]) linarith
    finally show ?thesis .
  qed
  have yhi: "y \<le> of_int (2 ^ nat k)"
  proof -
    have "y \<le> of_int c" by (simp add: c_def)
    also have "\<dots> \<le> of_int (2 ^ nat k)" using bl by (simp only: of_int_le_iff) simp
    finally show ?thesis .
  qed
  have lo: "pow2 (ilog2 x) \<le> x"
  proof -
    have "pow2 (ilog2 x) = 1 / 2 ^ nat k" using kpos by (simp add: il pow2_def)
    also have "\<dots> \<le> 1 / y" using yhi y1 by (simp add: frac_le)
    also have "\<dots> = x" by (simp add: y_def)
    finally show ?thesis .
  qed
  have hi: "x < pow2 (ilog2 x + 1)"
  proof -
    have "x = 1 / y" by (simp add: y_def)
    also have "\<dots> < 1 / 2 ^ nat (k - 1)" using ylo by (simp add: frac_less2)
    also have "\<dots> = pow2 (ilog2 x + 1)"
    proof (cases "k = 1")
      case True
      then show ?thesis by (simp add: il pow2_def)
    next
      case False
      then have "nat (k - 1) = nat (- (- k + 1))" and "\<not> 0 \<le> - k + 1" using kpos by simp_all
      then show ?thesis by (simp add: il pow2_def)
    qed
    finally show ?thesis .
  qed
  show ?thesis using lo hi by simp
qed

lemma round_half_even_error: "\<bar>of_int (round_half_even y) - y\<bar> \<le> 1 / 2"
proof -
  have "of_int \<lfloor>y\<rfloor> \<le> y \<and> y < of_int \<lfloor>y\<rfloor> + 1" using floor_correct [of y] by simp
  then show ?thesis by (auto simp add: round_half_even_def Let_def abs_le_iff)
qed

lemma round_half_even_of_int: "round_half_even (of_int n) = n"
  by (simp add: round_half_even_def)

lemma round_half_even_ge: "of_int n \<le> y \<Longrightarrow> n \<le> round_half_even y"
proof -
  assume "of_int n \<le> y"
  then have "n \<le> \<lfloor>y\<rfloor>" by (simp add: le_floor_iff)
  then show ?thesis by (auto simp add: round_half_even_def Let_def)
qed

lemma round_half_even_le:
  assumes "y \<le> of_int n"
  shows "round_half_even y \<le> n"
proof (cases "y = of_int n")
  case True
  then show ?thesis by (simp add: round_half_even_of_int)
next
  case False
  with assms have "y < of_int n" by simp
  then have "\<lfloor>y\<rfloor> < n" by (simp add: floor_less_iff)
  then show ?thesis by (auto simp add: round_half_even_def Let_def)
qed

lemma float64_pos:
  assumes "0 < x"
  shows "float64 x = of_int (round_half_even (x / pow2 (ilog2 x - 52))) * pow2 (ilog2 x - 52)"
  using assms by (simp add: float64_def Let_def)

lemma scaled_bounds:
  assumes "0 < x"
  shows "2 ^ 52 \<le> x / pow2 (ilog2 x - 52) \<and> x / pow2 (ilog2 x - 52) \<le> 2 ^ 53"
proof -
  have b: "pow2 (ilog2 x) \<le> x \<and> x < pow2 (ilog2 x + 1)" by (rule ilog2_bounds [OF assms])
  have e: "pow2 (ilog2 x) = pow2 (ilog2 x - 52) * 2 ^ 52"
    using pow2_shift [of "ilog2 x - 52" 52] by simp
  have e1: "pow2 (ilog2 x + 1) = pow2 (ilog2 x - 52) * 2 ^ 53"
    using pow2_shift [of "ilog2 x - 52" 53] by (simp add: add.commute mult.commute)
  have p: "0 < pow2 (ilog2 x - 52)" by (rule pow2_pos)
  have "2 ^ 52 \<le> x / pow2 (ilog2 x - 52)"
    using b e p by (simp add: pos_le_divide_eq mult.commute)
  moreover have "x / pow2 (ilog2 x - 52) \<le> 2 ^ 53"
    using b e1 p by (simp add: pos_divide_le_eq mult.commute)
  ultimately show ?thesis by simp
qed

lemma float64_pos_bounds:
  assumes "0 < x"
  shows "pow2 (ilog2 x) \<le> float64 x \<and> float64 x \<le> pow2 (ilog2 x + 1)"
proof -
  let ?u = "ilog2 x - 52"
  let ?m = "round_half_even (x / pow2 ?u)"
  have sb: "of_int (2 ^ 52) \<le> x / pow2 ?u \<and> x / pow2 ?u \<le> of_int (2 ^ 53)"
    using scaled_bounds [OF assms] by simp
  have m1: "2 ^ 52 \<le> ?m" using sb round_half_even_ge by blast
  have m2: "?m \<le> 2 ^ 53" using sb round_half_even_le by blast
  have p: "0 < pow2 ?u" by (rule pow2_pos)
  have e: "pow2 (ilog2 x) = 2 ^ 52 * pow2 ?u"
    using pow2_shift [of "ilog2 x - 52" 52] by simp
  have e1: "pow2 (ilog2 x + 1) = 2 ^ 53 * pow2 ?u"
    using pow2_shift [of "ilog2 x - 52" 53] by (simp add: add.commute mult.commute)
  have "(2 ^ 52 :: rat) \<le> of_int ?m"
  proof -
    have "(of_int (2 ^ 52) :: rat) \<le> of_int ?m" using m1 by (simp only: of_int_le_iff)
    then show ?thesis by simp
  qed
  then have lo: "pow2 (ilog2 x) \<le> of_int ?m * pow2 ?u"
    using p by (simp add: e)
  have "(of_int ?m :: rat) \<le> 2 ^ 53"
  proof -
    have "(of_int ?m :: rat) \<le> of_int (2 ^ 53)" using m2 by (simp only: of_int_le_iff)
    then show ?thesis by simp
  qed
  then have hi: "of_int ?m * pow2 ?u \<le> pow2 (ilog2 x + 1)"
    using p by (simp add: e1)
  show ?thesis using lo hi by (simp add: float64_pos [OF assms])
qed

lemma pow2_le_imp_ilog2:
  assumes "pow2 k \<le> x"
  shows "k \<le> ilog2 x"
proof -
  have x: "0 < x" using assms pow2_pos [of k] by simp
  have "pow2 k < pow2 (ilog2 x + 1)" using ilog2_bounds [OF x] assms by simp
  then have "k < ilog2 x + 1" by (rule pow2_less_cancel)
  then show ?thesis by simp
qed

lemma less_pow2_imp_ilog2:
  assumes "0 < x" and "x < pow2 k"
  shows "ilog2 x < k"
proof -
  have "pow2 (ilog2 x) < pow2 k" using ilog2_bounds [OF assms(1)] assms(2) by simp
  then show ?thesis by (rule pow2_less_cancel)
qed

lemma float64_ge_pow2:
  assumes "pow2 k \<le> x"
  shows "pow2 k \<le> float64 x"
proof -
  have x: "0 < x" using assms pow2_pos [of k] by simp
  have "pow2 k \<le> pow2 (ilog2 x)" using pow2_le_imp_ilog2 [OF assms] by (rule pow2_mono)
  also have "\<dots> \<le> float64 x" using float64_pos_bounds [OF x] by simp
  finally show ?thesis .
qed

lemma float64_pos_error:
  assumes "0 < x"
  shows "\<bar>float64 x - x\<bar> \<le> pow2 (ilog2 x - 53)"
proof -
  let ?u = "ilog2 x - 52"
  let ?q = "x / pow2 ?u"
  have p: "0 < pow2 ?u" by (rule pow2_pos)
  have x: "x = ?q * pow2 ?u" using p by simp
  have "float64 x - x = (of_int (round_half_even ?q) - ?q) * pow2 ?u"
    using p by (simp add: float64_pos [OF assms] left_diff_distrib)
  then have "\<bar>float64 x - x\<bar> = \<bar>of_int (round_half_even ?q) - ?q\<bar> * pow2 ?u"
    using p by (simp add: abs_mult)
  also have "\<dots> \<le> (1 / 2) * pow2 ?u"
    using round_half_even_error [of ?q] p by (simp only: mult_right_mono less_imp_le)
  also have "\<dots> = pow2 (ilog2 x - 53)"
    using pow2_shift [of "ilog2 x - 53" 1] by simp
  finally show ?thesis .
qed

lemma float64_of_int_exact:
  assumes "\<bar>n\<bar> < 2 ^ 53"
  shows "float64 (of_int n) = of_int n"
proof (cases "n = 0")
  case True
  then show ?thesis by (simp add: float64_def)
next
  case False
  let ?x = "of_int n :: rat"
  have ax: "0 < \<bar>?x\<bar>" using False by simp
  have "\<bar>?x\<bar> < pow2 53"
  proof -
    have "(of_int \<bar>n\<bar> :: rat) < of_int (2 ^ 53)" using assms by (simp only: of_int_less_iff)
    then show ?thesis by (simp add: pow2_def)
  qed
  then have "ilog2 \<bar>?x\<bar> < 53" using less_pow2_imp_ilog2 [OF ax] by simp
  then have u: "ilog2 \<bar>?x\<bar> - 52 \<le> 0" by simp
  define j where "j = nat (- (ilog2 \<bar>?x\<bar> - 52))"
  have pu: "pow2 (ilog2 \<bar>?x\<bar> - 52) = 1 / 2 ^ j"
  proof (cases "ilog2 \<bar>?x\<bar> - 52 = 0")
    case True
    then show ?thesis by (simp add: pow2_def j_def)
  next
    case False
    with u have "\<not> 0 \<le> ilog2 \<bar>?x\<bar> - 52" by simp
    then show ?thesis by (simp add: pow2_def j_def)
  qed
  have q: "?x / pow2 (ilog2 \<bar>?x\<bar> - 52) = of_int (n * 2 ^ j)" by (simp add: pu)
  have "float64 ?x = of_int (round_half_even (?x / pow2 (ilog2 \<bar>?x\<bar> - 52))) * pow2 (ilog2 \<bar>?x\<bar> - 52)"
    using False by (simp add: float64_def Let_def)
  also have "\<dots> = of_int (n * 2 ^ j) * (1 / 2 ^ j)"
  proof -
    have "round_half_even (?x / pow2 (ilog2 \<bar>?x\<bar> - 52)) = n * 2 ^ j"
      by (simp only: q round_half_even_of_int)
    then show ?thesis by (simp only: pu)
  qed
  also have "\<dots> = ?x" by simp
  finally show ?thesis .
qed

section \<open>Monotonicity of rounding\<close>









section \<open>C1: frames and video of \<^verbatim>\<open>eta_animation\<close>\<close>

text \<open>
  C1, as the code behaves. For a snapshot sequence of length \<open>N \<ge> 1\<close> whose mid-sequence
  snapshot has a maximal magnitude \<open>m\<close> (it is not a zero-size array),
  \<^verbatim>\<open>eta_animation\<close> with \<^verbatim>\<open>writer='opencv'\<close> returns 0 and
  \<^item> writes, for every \<open>i < N\<close>, the file \<^verbatim>\<open>frames/frame_{i:08d}.png\<close>, the rasterized
    figure whose data is snapshot \<open>i\<close> (without its last row and column) and whose title
    shows \<open>i * frame_interval / 60\<close>, the time in minutes, computed in double precision;
  \<^item> the index in the name reads back as \<open>i\<close> and has eight digits for \<open>i < 10^8\<close>;
  \<^item> leaves every other file as it was; the \<open>N\<close> names are pairwise different;
  \<^item> creates one video writer for \<^verbatim>\<open>video.mp4\<close>, hands it the \<open>N\<close> frames in snapshot
    order and releases it.
\<close>

theorem eta_animation_frames_and_video:
  assumes ne: "eta_list \<noteq> []"
      and am: "amax (map abs (flatten (eta_list ! (length eta_list div 2)))) = Inr m"
  shows "\<exists>w' wr.
           eta_animation R X Y eta_list frame_interval out ''opencv'' FPS w = (Inr 0, w')
         \<and> (\<forall>i<length eta_list.
                files w' (out @ [''frames'', frame_name i]) =
                  Some (Png (R (eta_frame X Y eta_list frame_interval m i)))
              \<and> ef_array (eta_frame X Y eta_list frame_interval m i) =
                  flatten (drop_last2 (eta_list ! i))
              \<and> ef_title_minutes (eta_frame X Y eta_list frame_interval m i) =
                  Some (float64 (float64 (float64 (of_nat i) * frame_interval) / 60))
              \<and> frame_name i = ''frame_'' @ fmt08d i @ ''.png''
              \<and> undec (fmt08d i) = i
              \<and> (i < 10 ^ 8 \<longrightarrow> length (fmt08d i) = 8))
         \<and> (\<forall>p. p \<notin> (\<lambda>i. out @ [''frames'', frame_name i]) ` {..<length eta_list} \<longrightarrow>
                files w' p = files w p)
         \<and> card ((\<lambda>i. out @ [''frames'', frame_name i]) ` {..<length eta_list}) = length eta_list
         \<and> writers w' = writers w @ [wr]
         \<and> vw_filename wr = out @ [''video.mp4'']
         \<and> vw_frames wr =
              map (\<lambda>i. select_210 (R (eta_frame X Y eta_list frame_interval m i))) [0..<length eta_list]
         \<and> length (vw_frames wr) = length eta_list
         \<and> vw_released wr"
proof -
  note run = eta_animation_run [OF ne am, where R = R and X = X and Y = Y
      and frame_interval = frame_interval and out = out and FPS = FPS and w = w]
  note fl = eta_animation_files [OF ne am, where R = R and X = X and Y = Y
      and frame_interval = frame_interval and out = out and FPS = FPS and w = w]
  let ?w = "snd (eta_animation R X Y eta_list frame_interval out ''opencv'' FPS w)"
  let ?wr = "new_writer (out @ [''video.mp4'']) FPS
                (\<lambda>i. R (eta_frame X Y eta_list frame_interval m i)) (length eta_list) True"
  have 1: "eta_animation R X Y eta_list frame_interval out ''opencv'' FPS w = (Inr 0, ?w)"
    by (simp add: run)
  have 2: "\<forall>i<length eta_list.
                files ?w (out @ [''frames'', frame_name i]) =
                  Some (Png (R (eta_frame X Y eta_list frame_interval m i)))
              \<and> ef_array (eta_frame X Y eta_list frame_interval m i) =
                  flatten (drop_last2 (eta_list ! i))
              \<and> ef_title_minutes (eta_frame X Y eta_list frame_interval m i) =
                  Some (float64 (float64 (float64 (of_nat i) * frame_interval) / 60))
              \<and> frame_name i = ''frame_'' @ fmt08d i @ ''.png''
              \<and> undec (fmt08d i) = i
              \<and> (i < 10 ^ 8 \<longrightarrow> length (fmt08d i) = 8)"
    using fl(1)
    by (simp add: eta_frame_def title_minutes_def fmul_def float_of_int_def frame_name_def
        undec_fmt08d length_fmt08d)
  have 3: "\<forall>p. p \<notin> (\<lambda>i. out @ [''frames'', frame_name i]) ` {..<length eta_list} \<longrightarrow>
                files ?w p = files w p"
    using fl(2) by blast
  have 4: "writers ?w = writers w @ [?wr]" by (simp add: run)
  have 5: "vw_filename ?wr = out @ [''video.mp4'']
         \<and> vw_frames ?wr =
              map (\<lambda>i. select_210 (R (eta_frame X Y eta_list frame_interval m i))) [0..<length eta_list]
         \<and> length (vw_frames ?wr) = length eta_list
         \<and> vw_released ?wr"
    by (simp add: new_writer_def)
  show ?thesis
    using 1 2 3 4 5 card_frame_paths [of out "length eta_list"] by blast
qed

text \<open>The hypotheses of C1 hold for a sequence of two 2x2 snapshots.\<close>

theorem eta_animation_frames_and_video_witness:
  "[[[0, 1], [2, 3]], [[4, 5], [6, - 7]]] \<noteq> ([] :: array2 list)
   \<and> amax (map abs (flatten ([[[0, 1], [2, 3]], [[4, 5], [6, - 7]]] ! (length [[[0, 1], [2, 3 :: rat]], [[4, 5], [6, - 7]]] div 2)))) = Inr 7
   \<and> fst (eta_animation (\<lambda>fig. \<lparr>img_size = (2, 1), img_pixels = [[(1, 2, 3, 255), (4, 5, 6, 255)]]\<rparr>)
        [[0, 1], [0, 1]] [[0, 0], [1, 1]] [[[0, 1], [2, 3]], [[4, 5], [6, - 7]]] 30 [''out''] ''opencv'' 10
          \<lparr>dirs = {}, files = Map.empty, writers = []\<rparr>) = Inr 0
   \<and> files (snd (eta_animation (\<lambda>fig. \<lparr>img_size = (2, 1), img_pixels = [[(1, 2, 3, 255), (4, 5, 6, 255)]]\<rparr>)
        [[0, 1], [0, 1]] [[0, 0], [1, 1]] [[[0, 1], [2, 3]], [[4, 5], [6, - 7]]] 30 [''out''] ''opencv'' 10
          \<lparr>dirs = {}, files = Map.empty, writers = []\<rparr>)) [''out'', ''frames'', ''frame_00000001.png''] =
       Some (Png \<lparr>img_size = (2, 1), img_pixels = [[(1, 2, 3, 255), (4, 5, 6, 255)]]\<rparr>)
   \<and> map (length \<circ> vw_frames) (writers (snd (eta_animation
        (\<lambda>fig. \<lparr>img_size = (2, 1), img_pixels = [[(1, 2, 3, 255), (4, 5, 6, 255)]]\<rparr>)
        [[0, 1], [0, 1]] [[0, 0], [1, 1]] [[[0, 1], [2, 3]], [[4, 5], [6, - 7]]] 30 [''out''] ''opencv'' 10
          \<lparr>dirs = {}, files = Map.empty, writers = []\<rparr>))) = [2]"
proof -
  have ne: "[[[0, 1], [2, 3]], [[4, 5], [6, - 7]]] \<noteq> ([] :: array2 list)" by simp
  have am: "amax (map abs (flatten ([[[0, 1], [2, 3]], [[4, 5], [6, - 7]]] ! (length [[[0, 1], [2, 3 :: rat]], [[4, 5], [6, - 7]]] div 2)))) = Inr 7"
    by (simp add: amax_def flatten_def)
  have n1: "frame_name (Suc 0) = ''frame_00000001.png''" by code_simp
  from eta_animation_frames_and_video [OF ne am,
      where R = "\<lambda>fig. \<lparr>img_size = (2, 1), img_pixels = [[(1, 2, 3, 255), (4, 5, 6, 255)]]\<rparr>"
        and X = "[[0, 1], [0, 1]]" and Y = "[[0, 0], [1, 1]]" and frame_interval = 30
        and out = "[''out'']" and FPS = 10 and w = "\<lparr>dirs = {}, files = Map.empty, writers = []\<rparr>"]
  obtain w' wr where r: "eta_animation (\<lambda>fig. \<lparr>img_size = (2, 1), img_pixels = [[(1, 2, 3, 255), (4, 5, 6, 255)]]\<rparr>)
        [[0, 1], [0, 1]] [[0, 0], [1, 1]] [[[0, 1], [2, 3]], [[4, 5], [6, - 7]]] 30 [''out''] ''opencv'' 10
          \<lparr>dirs = {}, files = Map.empty, writers = []\<rparr> = (Inr 0, w')"
    and f: "files w' ([''out''] @ [''frames'', frame_name 1]) =
          Some (Png \<lparr>img_size = (2, 1), img_pixels = [[(1, 2, 3, 255), (4, 5, 6, 255)]]\<rparr>)"
    and v: "writers w' = [] @ [wr]"
    and l: "length (vw_frames wr) = length [[[0, 1], [2, 3 :: rat]], [[4, 5], [6, - 7]]]"
    by force
  show ?thesis using ne am r f v l by (simp add: n1)
qed

text \<open>
  C1 as stated fails in its last part: with \<^verbatim>\<open>frame_interval = 60\<close> the title of frame 1
  shows 1 (minute), not \<open>1 * 60\<close>.
\<close>

theorem eta_animation_title_counterexample:
  "update_eta [[[0, 0], [0, 0]], [[0, 0], [0, 0]]] 60 1
     \<lparr>ef_X = [], ef_Y = [], ef_array = [], ef_vmin = 0, ef_vmax = 0, ef_title_minutes = None\<rparr> =
   Inr \<lparr>ef_X = [], ef_Y = [], ef_array = [0], ef_vmin = 0, ef_vmax = 0, ef_title_minutes = Some 1\<rparr>
   \<and> (1 :: rat) \<noteq> 1 * 60"
  by code_simp

section \<open>C2: empty snapshot sequences\<close>

text \<open>
  C2, as the code behaves: with an empty snapshot sequence \<^verbatim>\<open>eta_animation\<close> raises
  IndexError at \<^verbatim>\<open>eta_list[0]\<close> (line 34), before any directory, frame file or video
  writer is created: the world is left as it was, but the call does not return normally.
\<close>

theorem eta_animation_empty_raises:
  "eta_animation rasterize X Y [] frame_interval out_folder writer FPS w = (Inl IndexError, w)"
  by (simp add: eta_animation_def)

text \<open>
  C2 as stated (a guarded no-op without a crash) fails: on the empty sequence, from the
  empty world, the call ends in IndexError instead of returning.
\<close>

theorem eta_animation_empty_counterexample:
  "fst (eta_animation (\<lambda>fig. \<lparr>img_size = (1, 1), img_pixels = [[(0, 0, 0, 0)]]\<rparr>) [] [] [] 1 [''out'']
          ''opencv'' 10 \<lparr>dirs = {}, files = Map.empty, writers = []\<rparr>) = Inl IndexError"
  by (simp add: eta_animation_def)

section \<open>C3: the scalar field of \<^verbatim>\<open>get_mesh\<close>\<close>









section \<open>C4: one mesh file per snapshot\<close>

lemma mesh_files_miss:
  "(\<And>i. i \<in> set sched \<Longrightarrow> p \<noteq> folder @ [mesh_name i]) \<Longrightarrow> mesh_files M folder sched m p = m p"
  by (induction sched arbitrary: m) auto

lemma mesh_files_hit:
  "i \<in> set sched \<or> m (folder @ [mesh_name i]) = Some (Obj (M i)) \<Longrightarrow>
     mesh_files M folder sched m (folder @ [mesh_name i]) = Some (Obj (M i))"
proof (induction sched arbitrary: m)
  case Nil
  then show ?case by simp
next
  case (Cons j sched)
  have "mesh_files M folder sched (m(folder @ [mesh_name j] \<mapsto> Obj (M j))) (folder @ [mesh_name i]) =
          Some (Obj (M i))"
  proof (rule Cons.IH)
    show "i \<in> set sched \<or>
          (m(folder @ [mesh_name j] \<mapsto> Obj (M j))) (folder @ [mesh_name i]) = Some (Obj (M i))"
    proof (cases "j = i")
      case True
      then show ?thesis by simp
    next
      case False
      then have "mesh_name j \<noteq> mesh_name i" using mesh_name_inj by blast
      then show ?thesis using Cons.prems False by auto
    qed
  qed
  then show ?case by (simp only: mesh_files.simps)
qed

lemma run_tasks_success:
  assumes "\<And>i. i \<in> set sched \<Longrightarrow>
             i < length eta_list \<and> extract_mesh mc (eta_list ! i) b res = Inr (M i)"
  shows "run_tasks mc eta_list b res folder sched w =
           (Inr (), w\<lparr>files := mesh_files M folder sched (files w)\<rparr>)"
  using assms
proof (induction sched arbitrary: w)
  case Nil
  then show ?case by simp
next
  case (Cons i sched)
  let ?w = "w\<lparr>files := (files w)(folder @ [mesh_name i] \<mapsto> Obj (M i))\<rparr>"
  have i: "i < length eta_list" and m: "extract_mesh mc (eta_list ! i) b res = Inr (M i)"
    using Cons.prems [of i] by simp_all
  have step: "get_mesh mc i (eta_list ! i) b res folder w = (Inr (), ?w)"
    by (simp add: get_mesh_def m export_obj_def)
  have rest: "run_tasks mc eta_list b res folder sched ?w =
        (Inr (), ?w\<lparr>files := mesh_files M folder sched (files ?w)\<rparr>)"
  proof (rule Cons.IH)
    fix k assume "k \<in> set sched"
    then show "k < length eta_list \<and> extract_mesh mc (eta_list ! k) b res = Inr (M k)"
      using Cons.prems [of k] by simp
  qed
  have fin: "?w\<lparr>files := mesh_files M folder sched (files ?w)\<rparr> =
        w\<lparr>files := mesh_files M folder (i # sched) (files w)\<rparr>"
    by (simp only: mesh_files.simps) simp
  have "run_tasks mc eta_list b res folder (i # sched) w =
          run_tasks mc eta_list b res folder sched ?w"
    using i by (simp add: step)
  then show ?case by (simp only: rest fin)
qed

lemma card_mesh_paths: "card ((\<lambda>i. folder @ [mesh_name i]) ` {..<n}) = n"
proof -
  have "inj_on (\<lambda>i. folder @ [mesh_name i]) {..<n}"
    by (rule inj_onI) (simp add: mesh_name_inj)
  then show ?thesis by (simp add: card_image)
qed

lemma extract_mesh_unfold:
  assumes "axis_resolutions res b = Inr (resx, resy, resz)"
  shows "extract_mesh mc eta b res = mc (fst b) (snd b) resx resy resz (sdf eta b) 0"
  using assms by (simp add: extract_mesh_def)

lemma get_mesh_writes:
  assumes "axis_resolutions res b = Inr (resx, resy, resz)"
      and "mc (fst b) (snd b) resx resy resz (sdf eta b) 0 = Inr m"
  shows "get_mesh mc i eta b res folder w =
           (Inr (), w\<lparr>files := (files w)(folder @ [mesh_name i] \<mapsto> Obj m)\<rparr>)"
  using assms by (simp add: get_mesh_def extract_mesh_unfold export_obj_def)

text \<open>
  C4. Let the pool run the tasks in any order \<open>sched\<close> that covers exactly the indices
  below \<open>N\<close> (every permutation of \<^verbatim>\<open>range(N)\<close> does). When no task fails, that is when
  the resolutions \<open>(resx, resy, resz)\<close> are computed from the bounds and the marching-cubes
  function, called with the corners, these resolutions, the scalar field \<^verbatim>\<open>sdf\<close> of
  snapshot \<open>i\<close> and the level 0, gives a mesh \<open>M i\<close> for every \<open>i < N\<close>, then
  \<^verbatim>\<open>eta_meshes\<close> returns 0 and the file \<^verbatim>\<open>mesh_{i:08d}.obj\<close> holds \<open>M i\<close>, the mesh of
  snapshot \<open>i\<close> alone, for every \<open>i < N\<close>; the \<open>N\<close> names are pairwise different, the
  index in a name reads back as \<open>i\<close> and has eight digits for \<open>i < 10^8\<close>, and no other
  file is touched.
\<close>

theorem eta_meshes_one_file_per_snapshot:
  assumes sched: "set sched = {..<length eta_list}"
      and res: "axis_resolutions res b = Inr (resx, resy, resz)"
      and ok: "\<forall>i<length eta_list.
                 mc (fst b) (snd b) resx resy resz (sdf (eta_list ! i) b) 0 = Inr (M i)"
  shows "\<exists>w'. eta_meshes mc sched eta_list b res folder w = (Inr 0, w')
       \<and> (\<forall>i<length eta_list.
              files w' (folder @ [mesh_name i]) = Some (Obj (M i))
            \<and> get_mesh mc i (eta_list ! i) b res folder w =
                (Inr (), w\<lparr>files := (files w)(folder @ [mesh_name i] \<mapsto> Obj (M i))\<rparr>)
            \<and> mesh_name i = ''mesh_'' @ fmt08d i @ ''.obj''
            \<and> undec (fmt08d i) = i
            \<and> (i < 10 ^ 8 \<longrightarrow> length (fmt08d i) = 8))
       \<and> (\<forall>p. p \<notin> (\<lambda>i. folder @ [mesh_name i]) ` {..<length eta_list} \<longrightarrow> files w' p = files w p)
       \<and> card ((\<lambda>i. folder @ [mesh_name i]) ` {..<length eta_list}) = length eta_list
       \<and> writers w' = writers w"
proof -
  let ?w1 = "mkdir_parents folder w"
  let ?w = "?w1\<lparr>files := mesh_files M folder sched (files ?w1)\<rparr>"
  have ex: "\<And>i. i < length eta_list \<Longrightarrow> extract_mesh mc (eta_list ! i) b res = Inr (M i)"
    using ok by (simp add: extract_mesh_unfold [OF res])
  have run: "run_tasks mc eta_list b res folder sched ?w1 = (Inr (), ?w)"
  proof (rule run_tasks_success)
    fix i assume "i \<in> set sched"
    then have "i < length eta_list" using sched by simp
    then show "i < length eta_list \<and> extract_mesh mc (eta_list ! i) b res = Inr (M i)"
      using ex by simp
  qed
  have 1: "eta_meshes mc sched eta_list b res folder w = (Inr 0, ?w)"
    by (simp add: eta_meshes_def run)
  have fw: "files ?w1 = files w" by (simp add: mkdir_parents_def)
  have 2: "\<forall>i<length eta_list.
              files ?w (folder @ [mesh_name i]) = Some (Obj (M i))
            \<and> get_mesh mc i (eta_list ! i) b res folder w =
                (Inr (), w\<lparr>files := (files w)(folder @ [mesh_name i] \<mapsto> Obj (M i))\<rparr>)
            \<and> mesh_name i = ''mesh_'' @ fmt08d i @ ''.obj''
            \<and> undec (fmt08d i) = i
            \<and> (i < 10 ^ 8 \<longrightarrow> length (fmt08d i) = 8)"
  proof (intro allI impI)
    fix i assume i: "i < length eta_list"
    then have "i \<in> set sched" using sched by simp
    then have "mesh_files M folder sched (files w) (folder @ [mesh_name i]) = Some (Obj (M i))"
      by (simp add: mesh_files_hit)
    moreover have "get_mesh mc i (eta_list ! i) b res folder w =
                (Inr (), w\<lparr>files := (files w)(folder @ [mesh_name i] \<mapsto> Obj (M i))\<rparr>)"
      using ok i by (intro get_mesh_writes [OF res]) simp
    ultimately show "files ?w (folder @ [mesh_name i]) = Some (Obj (M i))
            \<and> get_mesh mc i (eta_list ! i) b res folder w =
                (Inr (), w\<lparr>files := (files w)(folder @ [mesh_name i] \<mapsto> Obj (M i))\<rparr>)
            \<and> mesh_name i = ''mesh_'' @ fmt08d i @ ''.obj''
            \<and> undec (fmt08d i) = i
            \<and> (i < 10 ^ 8 \<longrightarrow> length (fmt08d i) = 8)"
      by (simp add: fw mesh_name_def undec_fmt08d length_fmt08d)
  qed
  have 3: "\<forall>p. p \<notin> (\<lambda>i. folder @ [mesh_name i]) ` {..<length eta_list} \<longrightarrow> files ?w p = files w p"
  proof (intro allI impI)
    fix p assume p: "p \<notin> (\<lambda>i. folder @ [mesh_name i]) ` {..<length eta_list}"
    have "mesh_files M folder sched (files w) p = files w p"
    proof (rule mesh_files_miss)
      fix i assume "i \<in> set sched"
      then have "i < length eta_list" using sched by simp
      then show "p \<noteq> folder @ [mesh_name i]" using p by auto
    qed
    then show "files ?w p = files w p" by (simp add: fw)
  qed
  have 4: "writers ?w = writers w" by (simp add: mkdir_parents_def)
  show ?thesis using 1 2 3 4 card_mesh_paths [of folder "length eta_list"] by blast
qed

text \<open>
  The hypotheses of C4 hold for three different 1x1 snapshots of heights 1, 2 and 3, the
  box from \<open>(0, 0, -1)\<close> to \<open>(1, 1, 1)\<close>, the resolution 8 (so the axes get 4, 4 and 8), a
  marching-cubes function whose mesh records the value of the scalar field at the origin
  and two of the resolutions, and the tasks run in the order 2, 0, 1: the files 0 and 2
  hold the meshes of the snapshots 0 and 2.
\<close>

theorem eta_meshes_one_file_per_snapshot_witness:
  "set [2, 0, 1] = {..<length [[[1]], [[2]], [[3 :: rat]]]}
   \<and> axis_resolutions 8 ((0, 0, - 1), (1, 1, 1)) = Inr (4, 4, 8)
   \<and> fst (eta_meshes (\<lambda>lo hi rx ry rz f level.
          case f 0 0 0 of Inl e \<Rightarrow> Inl e | Inr d \<Rightarrow> Inr ([(d, of_int rx, of_int rz)], [(0, 1, 2)]))
        [2, 0, 1] [[[1]], [[2]], [[3]]] ((0, 0, - 1), (1, 1, 1)) 8
        [''meshes''] \<lparr>dirs = {}, files = Map.empty, writers = []\<rparr>) = Inr 0
   \<and> files (snd (eta_meshes (\<lambda>lo hi rx ry rz f level.
          case f 0 0 0 of Inl e \<Rightarrow> Inl e | Inr d \<Rightarrow> Inr ([(d, of_int rx, of_int rz)], [(0, 1, 2)]))
        [2, 0, 1] [[[1]], [[2]], [[3]]] ((0, 0, - 1), (1, 1, 1)) 8
        [''meshes''] \<lparr>dirs = {}, files = Map.empty, writers = []\<rparr>)) [''meshes'', ''mesh_00000000.obj''] =
       Some (Obj ([(1, 4, 8)], [(0, 1, 2)]))
   \<and> files (snd (eta_meshes (\<lambda>lo hi rx ry rz f level.
          case f 0 0 0 of Inl e \<Rightarrow> Inl e | Inr d \<Rightarrow> Inr ([(d, of_int rx, of_int rz)], [(0, 1, 2)]))
        [2, 0, 1] [[[1]], [[2]], [[3]]] ((0, 0, - 1), (1, 1, 1)) 8
        [''meshes''] \<lparr>dirs = {}, files = Map.empty, writers = []\<rparr>)) [''meshes'', ''mesh_00000002.obj''] =
       Some (Obj ([(3, 4, 8)], [(0, 1, 2)]))"
proof -
  let ?mc = "(\<lambda>lo hi rx ry rz f level.
          case f 0 0 0 of Inl e \<Rightarrow> Inl e | Inr d \<Rightarrow> Inr ([(d, of_int rx, of_int rz)], [(0, 1, 2)])) :: marching_cubes"
  let ?el = "[[[1]], [[2]], [[3 :: rat]]]"
  let ?b = "((0, 0, - 1), (1, 1, 1)) :: bounds"
  let ?M = "\<lambda>i. ([(of_nat i + 1, 4, 8)], [(0, 1, 2)]) :: mesh"
  have s: "set [2, 0, 1] = {..<length ?el}" by auto
  have r: "axis_resolutions 8 ?b = Inr (4, 4, 8)" by code_simp
  have e0: "?mc (fst ?b) (snd ?b) 4 4 8 (sdf [[1]] ?b) 0 = Inr ([(1, 4, 8)], [(0, 1, 2)])" by code_simp
  have e1: "?mc (fst ?b) (snd ?b) 4 4 8 (sdf [[2]] ?b) 0 = Inr ([(2, 4, 8)], [(0, 1, 2)])" by code_simp
  have e2: "?mc (fst ?b) (snd ?b) 4 4 8 (sdf [[3]] ?b) 0 = Inr ([(3, 4, 8)], [(0, 1, 2)])" by code_simp
  have ok: "\<forall>i<length ?el. ?mc (fst ?b) (snd ?b) 4 4 8 (sdf (?el ! i) ?b) 0 = Inr (?M i)"
  proof (intro allI impI)
    fix i assume "i < length ?el"
    then have "i = 0 \<or> i = 1 \<or> i = 2" by auto
    then show "?mc (fst ?b) (snd ?b) 4 4 8 (sdf (?el ! i) ?b) 0 = Inr (?M i)"
      using e0 e1 e2 by auto
  qed
  have n0: "mesh_name 0 = ''mesh_00000000.obj''" by code_simp
  have n2: "mesh_name 2 = ''mesh_00000002.obj''" by code_simp
  from eta_meshes_one_file_per_snapshot [where mc = ?mc and M = ?M and sched = "[2, 0, 1]"
      and eta_list = ?el and b = ?b and res = 8 and resx = 4 and resy = 4 and resz = 8
      and folder = "[''meshes'']" and w = "\<lparr>dirs = {}, files = Map.empty, writers = []\<rparr>",
      OF s r ok]
  obtain w' where run: "eta_meshes ?mc [2, 0, 1] ?el ?b 8
        [''meshes''] \<lparr>dirs = {}, files = Map.empty, writers = []\<rparr> = (Inr 0, w')"
    and fl: "\<forall>i<length ?el. files w' ([''meshes''] @ [mesh_name i]) = Some (Obj (?M i))"
    by blast
  have f0: "files w' ([''meshes''] @ [mesh_name 0]) = Some (Obj (?M 0))" using fl by simp
  have f2: "files w' ([''meshes''] @ [mesh_name 2]) = Some (Obj (?M 2))" using fl by simp
  have g0: "files w' [''meshes'', ''mesh_00000000.obj''] = Some (Obj ([(1, 4, 8)], [(0, 1, 2)]))"
    using f0 unfolding n0 by simp
  have g2: "files w' [''meshes'', ''mesh_00000002.obj''] = Some (Obj ([(3, 4, 8)], [(0, 1, 2)]))"
    using f2 unfolding n2 by simp
  show ?thesis using s r run g0 g2 by simp
qed

section \<open>C5: the resolution of each axis\<close>

text \<open>
  C5. The resolutions are \<^verbatim>\<open>int(res / rg * extent)\<close>, with the division first and both
  operations rounded to double precision. For \<^verbatim>\<open>res = 64\<close> and a cube of side 49 the
  quotient \<^verbatim>\<open>64 / 49\<close> is rounded down, its product with 49 is \<open>64 - 2^-47\<close>, and every
  axis gets 63 instead of 64; the formula \<^verbatim>\<open>int(res * extent / rg)\<close> gives 64 there.
\<close>

theorem axis_resolutions_rounding:
  "axis_resolutions 64 ((0, 0, 0), (49, 49, 49)) = Inr (63, 63, 63)
   \<and> fmul (float64 (64 / 49)) 49 = 64 - 1 / 2 ^ 47
   \<and> py_int (float64 (fmul 64 49 / 49)) = 64"
  by code_simp

section \<open>C6: the colour scale of \<^verbatim>\<open>eta_animation\<close>\<close>

lemma amax_Inr_Max:
  assumes "amax xs = Inr m"
  shows "m = Max (set xs)"
proof (cases xs)
  case Nil
  with assms show ?thesis by (simp add: amax_def)
next
  case (Cons a list)
  then have "amax xs = Inr (Max (set xs))" by (intro amax_nonempty) simp
  with assms show ?thesis by simp
qed

lemma update_eta_keeps_bounds:
  "update_eta eta_list frame_interval i g = Inr g' \<Longrightarrow> ef_vmin g' = ef_vmin g \<and> ef_vmax g' = ef_vmax g"
  by (auto simp add: update_eta_def split: if_splits)

text \<open>
  C6. When \<^verbatim>\<open>np.abs(eta_list[int(len(eta_list)/2)]).max()\<close> evaluates to \<open>m\<close>, which
  is the largest magnitude in the snapshot at index \<open>N div 2\<close>, every frame file is the
  rasterized figure with \<^verbatim>\<open>vmax = m\<close> and \<^verbatim>\<open>vmin = -0.7 * m\<close>: the bounds are set
  when the figure is created, before the loop, and \<^verbatim>\<open>update_eta\<close> never changes them.
\<close>

theorem eta_animation_colour_bounds:
  assumes ne: "eta_list \<noteq> []"
      and am: "amax (map abs (flatten (eta_list ! (length eta_list div 2)))) = Inr m"
  shows "m = Max (set (map abs (flatten (eta_list ! (length eta_list div 2)))))
       \<and> (\<forall>i<length eta_list.
              files (snd (eta_animation R X Y eta_list frame_interval out ''opencv'' FPS w))
                (out @ [''frames'', frame_name i]) =
                Some (Png (R (eta_frame X Y eta_list frame_interval m i)))
            \<and> ef_vmax (eta_frame X Y eta_list frame_interval m i) = m
            \<and> ef_vmin (eta_frame X Y eta_list frame_interval m i) = float64 (- float64 (7 / 10) * m))
       \<and> (\<forall>i g g'. update_eta eta_list frame_interval i g = Inr g' \<longrightarrow>
              ef_vmin g' = ef_vmin g \<and> ef_vmax g' = ef_vmax g)"
proof -
  have 1: "m = Max (set (map abs (flatten (eta_list ! (length eta_list div 2)))))"
    by (rule amax_Inr_Max [OF am])
  have 2: "\<forall>i<length eta_list.
              files (snd (eta_animation R X Y eta_list frame_interval out ''opencv'' FPS w))
                (out @ [''frames'', frame_name i]) =
                Some (Png (R (eta_frame X Y eta_list frame_interval m i)))
            \<and> ef_vmax (eta_frame X Y eta_list frame_interval m i) = m
            \<and> ef_vmin (eta_frame X Y eta_list frame_interval m i) = float64 (- float64 (7 / 10) * m)"
    using eta_animation_files(1) [OF ne am, where R = R and X = X and Y = Y
      and frame_interval = frame_interval and out = out and FPS = FPS and w = w]
    by (simp add: eta_frame_def fmul_def)
  have 3: "\<forall>i g g'. update_eta eta_list frame_interval i g = Inr g' \<longrightarrow>
              ef_vmin g' = ef_vmin g \<and> ef_vmax g' = ef_vmax g"
    using update_eta_keeps_bounds by blast
  show ?thesis using 1 2 3 by blast
qed

lemma frame_name_1: "frame_name (Suc 0) = ''frame_00000001.png''"
  by code_simp

text \<open>The hypotheses of C6 hold for a sequence of two 2x2 snapshots; frame 1 is checked.\<close>

theorem eta_animation_colour_bounds_witness:
  "[[[0, 1], [2, 3]], [[4, 5], [6, - 7]]] \<noteq> ([] :: array2 list)
   \<and> amax (map abs (flatten ([[[0, 1], [2, 3]], [[4, 5], [6, - 7]]] ! (length [[[0, 1], [2, 3 :: rat]], [[4, 5], [6, - 7]]] div 2)))) = Inr 7
   \<and> files (snd (eta_animation (\<lambda>fig. \<lparr>img_size = (1, 1), img_pixels = [[(0, 0, 0, 255)]]\<rparr>)
        [[0, 1], [0, 1]] [[0, 0], [1, 1]] [[[0, 1], [2, 3]], [[4, 5], [6, - 7]]] 30 [''out''] ''opencv'' 10
          \<lparr>dirs = {}, files = Map.empty, writers = []\<rparr>)) [''out'', ''frames'', ''frame_00000001.png''] =
       Some (Png \<lparr>img_size = (1, 1), img_pixels = [[(0, 0, 0, 255)]]\<rparr>)
   \<and> ef_vmax (eta_frame [[0, 1], [0, 1]] [[0, 0], [1, 1]] [[[0, 1], [2, 3]], [[4, 5], [6, - 7]]] 30 7 1) = 7"
proof -
  have ne: "[[[0, 1], [2, 3]], [[4, 5], [6, - 7]]] \<noteq> ([] :: array2 list)" by simp
  have am: "amax (map abs (flatten ([[[0, 1], [2, 3]], [[4, 5], [6, - 7]]] ! (length [[[0, 1], [2, 3 :: rat]], [[4, 5], [6, - 7]]] div 2)))) = Inr 7"
    by (simp add: amax_def flatten_def)
  have i: "(1::nat) < length [[[0, 1], [2, 3 :: rat]], [[4, 5], [6, - 7]]]" by simp
  from eta_animation_colour_bounds [OF ne am,
      where R = "\<lambda>fig. \<lparr>img_size = (1, 1), img_pixels = [[(0, 0, 0, 255)]]\<rparr>"
        and X = "[[0, 1], [0, 1]]" and Y = "[[0, 0], [1, 1]]" and frame_interval = 30
        and out = "[''out'']" and FPS = 10 and w = "\<lparr>dirs = {}, files = Map.empty, writers = []\<rparr>"]
  have "files (snd (eta_animation (\<lambda>fig. \<lparr>img_size = (1, 1), img_pixels = [[(0, 0, 0, 255)]]\<rparr>)
        [[0, 1], [0, 1]] [[0, 0], [1, 1]] [[[0, 1], [2, 3]], [[4, 5], [6, - 7]]] 30 [''out''] ''opencv'' 10
          \<lparr>dirs = {}, files = Map.empty, writers = []\<rparr>)) ([''out''] @ [''frames'', frame_name 1]) =
       Some (Png \<lparr>img_size = (1, 1), img_pixels = [[(0, 0, 0, 255)]]\<rparr>)
     \<and> ef_vmax (eta_frame [[0, 1], [0, 1]] [[0, 0], [1, 1]] [[[0, 1], [2, 3]], [[4, 5], [6, - 7]]] 30 7 1) = 7"
    using i by blast
  then show ?thesis using ne am by (simp add: frame_name_1)
qed

section \<open>C7: the video writer\<close>

text \<open>
  C7. A successful run of \<^verbatim>\<open>eta_animation\<close> adds exactly one video writer to the store;
  its frame size is the size of the first frame, and the frames it receives are the
  saved frames with the channels of every pixel reordered: a pixel \<open>(r, g, b, a)\<close>
  is written as \<open>(b, g, r)\<close>. The loop body creates a writer at index 0 only: at any
  later index the number of writers stays the same.
\<close>

theorem eta_animation_video_writer:
  assumes ne: "eta_list \<noteq> []"
      and am: "amax (map abs (flatten (eta_list ! (length eta_list div 2)))) = Inr m"
  shows "\<exists>w' wr.
           eta_animation R X Y eta_list frame_interval out ''opencv'' FPS w = (Inr 0, w')
         \<and> writers w' = writers w @ [wr]
         \<and> vw_frame_size wr = img_size (R (eta_frame X Y eta_list frame_interval m 0))
         \<and> vw_frames wr =
              map (\<lambda>i. select_210 (R (eta_frame X Y eta_list frame_interval m i))) [0..<length eta_list]
         \<and> (\<forall>i u ff vn st w0. 0 < i \<longrightarrow>
                length (writers (snd (loop_body R u ff vn FPS i st w0))) = length (writers w0))
         \<and> (\<forall>im y x r g b a.
                y < length (img_pixels im) \<and> x < length (img_pixels im ! y)
                \<and> img_pixels im ! y ! x = (r, g, b, a) \<longrightarrow>
                select_210 im ! y ! x = (b, g, r))"
proof -
  note run = eta_animation_run [OF ne am, where R = R and X = X and Y = Y
      and frame_interval = frame_interval and out = out and FPS = FPS and w = w]
  let ?w = "snd (eta_animation R X Y eta_list frame_interval out ''opencv'' FPS w)"
  let ?wr = "new_writer (out @ [''video.mp4'']) FPS
                (\<lambda>i. R (eta_frame X Y eta_list frame_interval m i)) (length eta_list) True"
  have 1: "eta_animation R X Y eta_list frame_interval out ''opencv'' FPS w = (Inr 0, ?w)"
    by (simp add: run)
  have 2: "writers ?w = writers w @ [?wr]" by (simp add: run)
  have 3: "vw_frame_size ?wr = img_size (R (eta_frame X Y eta_list frame_interval m 0))
         \<and> vw_frames ?wr =
              map (\<lambda>i. select_210 (R (eta_frame X Y eta_list frame_interval m i))) [0..<length eta_list]"
    by (simp add: new_writer_def)
  have 4: "\<forall>i u ff vn st w0. 0 < i \<longrightarrow>
                length (writers (snd (loop_body R u ff vn FPS i st w0))) = length (writers w0)"
    using loop_body_writers_later by blast
  have 5: "\<forall>im y x r g b a.
                y < length (img_pixels im) \<and> x < length (img_pixels im ! y)
                \<and> img_pixels im ! y ! x = (r, g, b, a) \<longrightarrow>
                select_210 im ! y ! x = (b, g, r)"
    using select_210_pixel by blast
  show ?thesis using 1 2 3 4 5 by blast
qed

text \<open>The hypotheses of C7 hold for two snapshots and a 2x1 raster.\<close>

theorem eta_animation_video_writer_witness:
  "[[[0, 1], [2, 3]], [[4, 5], [6, - 7]]] \<noteq> ([] :: array2 list)
   \<and> amax (map abs (flatten ([[[0, 1], [2, 3]], [[4, 5], [6, - 7]]] ! (length [[[0, 1], [2, 3 :: rat]], [[4, 5], [6, - 7]]] div 2)))) = Inr 7
   \<and> map vw_frame_size (writers (snd (eta_animation (\<lambda>fig. \<lparr>img_size = (2, 1), img_pixels = [[(1, 2, 3, 255), (4, 5, 6, 255)]]\<rparr>)
        [[0, 1], [0, 1]] [[0, 0], [1, 1]] [[[0, 1], [2, 3]], [[4, 5], [6, - 7]]] 30 [''out''] ''opencv'' 10
          \<lparr>dirs = {}, files = Map.empty, writers = []\<rparr>))) = [(2, 1)]
   \<and> map vw_frames (writers (snd (eta_animation (\<lambda>fig. \<lparr>img_size = (2, 1), img_pixels = [[(1, 2, 3, 255), (4, 5, 6, 255)]]\<rparr>)
        [[0, 1], [0, 1]] [[0, 0], [1, 1]] [[[0, 1], [2, 3]], [[4, 5], [6, - 7]]] 30 [''out''] ''opencv'' 10
          \<lparr>dirs = {}, files = Map.empty, writers = []\<rparr>))) = [[[[(3, 2, 1), (6, 5, 4)]], [[(3, 2, 1), (6, 5, 4)]]]]"
proof -
  have ne: "[[[0, 1], [2, 3]], [[4, 5], [6, - 7]]] \<noteq> ([] :: array2 list)" by simp
  have am: "amax (map abs (flatten ([[[0, 1], [2, 3]], [[4, 5], [6, - 7]]] ! (length [[[0, 1], [2, 3 :: rat]], [[4, 5], [6, - 7]]] div 2)))) = Inr 7"
    by (simp add: amax_def flatten_def)
  from eta_animation_video_writer [OF ne am,
      where R = "\<lambda>fig. \<lparr>img_size = (2, 1), img_pixels = [[(1, 2, 3, 255), (4, 5, 6, 255)]]\<rparr>"
        and X = "[[0, 1], [0, 1]]" and Y = "[[0, 0], [1, 1]]" and frame_interval = 30
        and out = "[''out'']" and FPS = 10 and w = "\<lparr>dirs = {}, files = Map.empty, writers = []\<rparr>"]
  obtain w' wr where
    "eta_animation (\<lambda>fig. \<lparr>img_size = (2, 1), img_pixels = [[(1, 2, 3, 255), (4, 5, 6, 255)]]\<rparr>)
        [[0, 1], [0, 1]] [[0, 0], [1, 1]] [[[0, 1], [2, 3]], [[4, 5], [6, - 7]]] 30 [''out''] ''opencv'' 10
          \<lparr>dirs = {}, files = Map.empty, writers = []\<rparr> = (Inr 0, w')"
    and "writers w' = [] @ [wr]"
    and "vw_frame_size wr = (2, 1)"
    and "vw_frames wr = map (\<lambda>i. select_210 \<lparr>img_size = (2, 1), img_pixels = [[(1, 2, 3, 255), (4, 5, 6, 255)]]\<rparr>) [0..<length [[[0, 1], [2, 3 :: rat]], [[4, 5], [6, - 7]]]]"
    by auto
  then show ?thesis using ne am by (simp add: select_210_def upt_rec)
qed

section \<open>C8: a writer other than \<^verbatim>\<open>'opencv'\<close>\<close>

lemma slice2_strided: "q \<noteq> 0 \<Longrightarrow> slice2 q a = Inr (strided q a)"
  by (simp add: slice2_def strided_def)

lemma eta_animation_other_writer:
  assumes "writer \<noteq> ''opencv''"
  shows "\<exists>e. eta_animation R X Y eta_list frame_interval out writer FPS w = (Inl e, w)"
    and "eta_list \<noteq> [] \<Longrightarrow> flatten (eta_list ! (length eta_list div 2)) \<noteq> [] \<Longrightarrow>
           eta_animation R X Y eta_list frame_interval out writer FPS w = (Inl NameError, w)"
  using assms
  by (auto simp add: eta_animation_def amax_def Let_def split: list.splits sum.splits)

lemma velocity_animation_other_writer:
  assumes "writer \<noteq> ''opencv''"
  shows "\<exists>e. velocity_animation R quiver X Y u_list v_list frame_interval out writer FPS arrow_scale w =
               (Inl e, w)"
    and "q_int X \<noteq> 0 \<Longrightarrow> u_list \<noteq> [] \<Longrightarrow> v_list \<noteq> [] \<Longrightarrow>
         quiver (array_div (strided (q_int X) X) 1000) (array_div (strided (q_int X) Y) 1000)
           (strided (q_int X) (hd u_list)) (strided (q_int X) (hd v_list)) = Inr () \<Longrightarrow>
           velocity_animation R quiver X Y u_list v_list frame_interval out writer FPS arrow_scale w =
             (Inl NameError, w)"
  using assms
  by (auto simp add: velocity_animation_def slice2_def strided_def Let_def
      split: list.splits sum.splits)

lemma eta_animation3D_other_writer:
  assumes "writer \<noteq> ''opencv''"
  shows "\<exists>e. eta_animation3D R X Y eta_list frame_interval out writer FPS w = (Inl e, w)"
    and "eta_list \<noteq> [] \<Longrightarrow> concat (map flatten eta_list) \<noteq> [] \<Longrightarrow>
           eta_animation3D R X Y eta_list frame_interval out writer FPS w = (Inl NameError, w)"
  using assms
  by (auto simp add: eta_animation3D_def amax_def amin_def Let_def split: list.splits sum.splits)

lemma contract_snapshot_nonempty:
  assumes "grid_contract X Y snapshots" and "a \<in> set snapshots"
  shows "flatten a \<noteq> []"
proof -
  have sa: "map length a = map length X"
    using assms by (auto simp add: grid_contract_def same_shape_def list_all_iff)
  obtain r rs where X: "X = r # rs" using assms(1) by (cases X) (auto simp add: grid_contract_def shape0_def)
  have "2 \<le> length r" using assms(1) X by (simp add: grid_contract_def shape1_def)
  moreover obtain r' rs' where a: "a = r' # rs'" and "length r' = length r"
    using sa X by (cases a) auto
  ultimately have "r' \<noteq> []" by auto
  then show ?thesis using a by (simp add: flatten_def)
qed

text \<open>
  C8, as the code behaves. With a writer other than \<^verbatim>\<open>'opencv'\<close> each of the three
  functions ends in an error and leaves the outside world as it was, so no frame and
  no video is produced. For inputs within the contract of the animation functions (a grid
  of at least 2x2 samples, \<open>Y\<close> and every snapshot of the shape of \<open>X\<close>) and a non-empty
  sequence, \<^verbatim>\<open>eta_animation\<close> and \<^verbatim>\<open>eta_animation3D\<close> end in the NameError for
  \<^verbatim>\<open>filename\<close>; so does \<^verbatim>\<open>velocity_animation\<close> when the stride is not 0, both lists are
  non-empty and the library accepts the arguments of \<^verbatim>\<open>ax.quiver\<close>. When the set-up
  before the branch fails, its error is raised instead.
\<close>

theorem other_writer_fails:
  assumes "writer \<noteq> ''opencv''"
  shows "(\<exists>e. eta_animation R1 X Y eta_list frame_interval out writer FPS w = (Inl e, w))
       \<and> (eta_list \<noteq> [] \<and> grid_contract X Y eta_list \<longrightarrow>
            eta_animation R1 X Y eta_list frame_interval out writer FPS w = (Inl NameError, w))
       \<and> (\<exists>e. velocity_animation R2 quiver X Y u_list v_list frame_interval out writer FPS
                 arrow_scale w = (Inl e, w))
       \<and> (q_int X \<noteq> 0 \<and> u_list \<noteq> [] \<and> v_list \<noteq> []
            \<and> quiver (array_div (strided (q_int X) X) 1000) (array_div (strided (q_int X) Y) 1000)
                 (strided (q_int X) (hd u_list)) (strided (q_int X) (hd v_list)) = Inr () \<longrightarrow>
            velocity_animation R2 quiver X Y u_list v_list frame_interval out writer FPS
              arrow_scale w = (Inl NameError, w))
       \<and> (\<exists>e. eta_animation3D R3 X Y eta_list frame_interval out writer FPS w = (Inl e, w))
       \<and> (eta_list \<noteq> [] \<and> grid_contract X Y eta_list \<longrightarrow>
            eta_animation3D R3 X Y eta_list frame_interval out writer FPS w = (Inl NameError, w))"
proof (intro conjI impI)
  show "\<exists>e. eta_animation R1 X Y eta_list frame_interval out writer FPS w = (Inl e, w)"
    by (rule eta_animation_other_writer(1) [OF assms])
  show "\<exists>e. velocity_animation R2 quiver X Y u_list v_list frame_interval out writer FPS
                 arrow_scale w = (Inl e, w)"
    by (rule velocity_animation_other_writer(1) [OF assms])
  show "\<exists>e. eta_animation3D R3 X Y eta_list frame_interval out writer FPS w = (Inl e, w)"
    by (rule eta_animation3D_other_writer(1) [OF assms])
next
  assume h: "eta_list \<noteq> [] \<and> grid_contract X Y eta_list"
  then have "eta_list ! (length eta_list div 2) \<in> set eta_list" by simp
  then have "flatten (eta_list ! (length eta_list div 2)) \<noteq> []"
    using h contract_snapshot_nonempty by blast
  then show "eta_animation R1 X Y eta_list frame_interval out writer FPS w = (Inl NameError, w)"
    using h by (simp add: eta_animation_other_writer(2) [OF assms])
next
  assume "q_int X \<noteq> 0 \<and> u_list \<noteq> [] \<and> v_list \<noteq> []
            \<and> quiver (array_div (strided (q_int X) X) 1000) (array_div (strided (q_int X) Y) 1000)
                 (strided (q_int X) (hd u_list)) (strided (q_int X) (hd v_list)) = Inr ()"
  then show "velocity_animation R2 quiver X Y u_list v_list frame_interval out writer FPS
              arrow_scale w = (Inl NameError, w)"
    by (simp add: velocity_animation_other_writer(2) [OF assms])
next
  assume h: "eta_list \<noteq> [] \<and> grid_contract X Y eta_list"
  then obtain a rest where el: "eta_list = a # rest" by (cases eta_list) auto
  then have "flatten a \<noteq> []" using h contract_snapshot_nonempty [of X Y eta_list a] by simp
  then have "concat (map flatten eta_list) \<noteq> []" using el by simp
  then show "eta_animation3D R3 X Y eta_list frame_interval out writer FPS w = (Inl NameError, w)"
    using h by (simp add: eta_animation3D_other_writer(2) [OF assms])
qed

text \<open>
  The hypothesis of C8 holds for the writer \<^verbatim>\<open>'ffmpeg'\<close>. With a 2x2 grid and one 2x2
  snapshot, and for \<^verbatim>\<open>velocity_animation\<close> a 50x50 grid with 50x50 components and a library
  that accepts every call, all three calls end in NameError.
\<close>

theorem other_writer_fails_witness:
  "''ffmpeg'' \<noteq> ''opencv''
   \<and> grid_contract [[0, 1], [0, 1]] [[0, 0], [1, 1]] [[[5, 6], [7, 8]]]
   \<and> eta_animation (\<lambda>fig. \<lparr>img_size = (1, 1), img_pixels = [[(0, 0, 0, 255)]]\<rparr>)
        [[0, 1], [0, 1]] [[0, 0], [1, 1]] [[[5, 6], [7, 8]]] 30 [''out''] ''ffmpeg'' 10
        \<lparr>dirs = {}, files = Map.empty, writers = []\<rparr> =
       (Inl NameError, \<lparr>dirs = {}, files = Map.empty, writers = []\<rparr>)
   \<and> eta_animation3D (\<lambda>fig. \<lparr>img_size = (1, 1), img_pixels = [[(0, 0, 0, 255)]]\<rparr>)
        [[0, 1], [0, 1]] [[0, 0], [1, 1]] [[[5, 6], [7, 8]]] 30 [''out''] ''ffmpeg'' 10
        \<lparr>dirs = {}, files = Map.empty, writers = []\<rparr> =
       (Inl NameError, \<lparr>dirs = {}, files = Map.empty, writers = []\<rparr>)
   \<and> q_int (replicate 50 (replicate 50 0)) \<noteq> 0
   \<and> velocity_animation (\<lambda>fig. \<lparr>img_size = (1, 1), img_pixels = [[(0, 0, 0, 255)]]\<rparr>)
        (\<lambda>X Y U V. Inr ())
        (replicate 50 (replicate 50 0)) (replicate 50 (replicate 50 0))
        [replicate 50 (replicate 50 1)] [replicate 50 (replicate 50 1)] 30 [''out''] ''ffmpeg'' 10 2
        \<lparr>dirs = {}, files = Map.empty, writers = []\<rparr> =
       (Inl NameError, \<lparr>dirs = {}, files = Map.empty, writers = []\<rparr>)"
proof -
  have wr: "''ffmpeg'' \<noteq> ''opencv''" by simp
  have q: "q_int (replicate 50 (replicate 50 0)) \<noteq> 0" by code_simp
  have ne: "[[[5, 6], [7, 8]]] \<noteq> ([] :: array2 list)" by simp
  have gc: "grid_contract [[0, 1], [0, 1]] [[0, 0], [1, 1]] [[[5, 6], [7, 8]]]"
    by (simp add: grid_contract_def same_shape_def shape0_def shape1_def)
  have a: "eta_animation (\<lambda>fig. \<lparr>img_size = (1, 1), img_pixels = [[(0, 0, 0, 255)]]\<rparr>)
        [[0, 1], [0, 1]] [[0, 0], [1, 1]] [[[5, 6], [7, 8]]] 30 [''out''] ''ffmpeg'' 10
        \<lparr>dirs = {}, files = Map.empty, writers = []\<rparr> =
       (Inl NameError, \<lparr>dirs = {}, files = Map.empty, writers = []\<rparr>)
   \<and> eta_animation3D (\<lambda>fig. \<lparr>img_size = (1, 1), img_pixels = [[(0, 0, 0, 255)]]\<rparr>)
        [[0, 1], [0, 1]] [[0, 0], [1, 1]] [[[5, 6], [7, 8]]] 30 [''out''] ''ffmpeg'' 10
        \<lparr>dirs = {}, files = Map.empty, writers = []\<rparr> =
       (Inl NameError, \<lparr>dirs = {}, files = Map.empty, writers = []\<rparr>)"
    using other_writer_fails [OF wr, where eta_list = "[[[5, 6], [7, 8]]]"
      and X = "[[0, 1], [0, 1]]" and Y = "[[0, 0], [1, 1]]"
      and ?R1.0 = "\<lambda>fig. \<lparr>img_size = (1, 1), img_pixels = [[(0, 0, 0, 255)]]\<rparr>"
      and ?R3.0 = "\<lambda>fig. \<lparr>img_size = (1, 1), img_pixels = [[(0, 0, 0, 255)]]\<rparr>"
      and frame_interval = 30 and out = "[''out'']" and FPS = 10
      and w = "\<lparr>dirs = {}, files = Map.empty, writers = []\<rparr>"] ne gc
    by blast
  have b: "velocity_animation (\<lambda>fig. \<lparr>img_size = (1, 1), img_pixels = [[(0, 0, 0, 255)]]\<rparr>)
        (\<lambda>X Y U V. Inr ())
        (replicate 50 (replicate 50 0)) (replicate 50 (replicate 50 0))
        [replicate 50 (replicate 50 1)] [replicate 50 (replicate 50 1)] 30 [''out''] ''ffmpeg'' 10 2
        \<lparr>dirs = {}, files = Map.empty, writers = []\<rparr> =
       (Inl NameError, \<lparr>dirs = {}, files = Map.empty, writers = []\<rparr>)"
    using other_writer_fails [OF wr, where X = "replicate 50 (replicate 50 0)"
      and Y = "replicate 50 (replicate 50 0)"
      and u_list = "[replicate 50 (replicate 50 1)]" and v_list = "[replicate 50 (replicate 50 1)]"
      and ?R2.0 = "\<lambda>fig. \<lparr>img_size = (1, 1), img_pixels = [[(0, 0, 0, 255)]]\<rparr>"
      and quiver = "\<lambda>X Y U V. Inr ()"
      and frame_interval = 30 and out = "[''out'']" and FPS = 10 and arrow_scale = 2
      and w = "\<lparr>dirs = {}, files = Map.empty, writers = []\<rparr>"] q
    by simp
  show ?thesis using wr gc a b q by blast
qed

text \<open>
  C8 as stated fails where the set-up fails first: with an empty sequence the call ends
  in IndexError, not in the unbound-variable error.
\<close>

theorem other_writer_counterexample:
  "eta_animation (\<lambda>fig. \<lparr>img_size = (1, 1), img_pixels = [[(0, 0, 0, 255)]]\<rparr>)
     [[0]] [[0]] [] 30 [''out''] ''ffmpeg'' 10 \<lparr>dirs = {}, files = Map.empty, writers = []\<rparr> =
   (Inl IndexError, \<lparr>dirs = {}, files = Map.empty, writers = []\<rparr>)"
  by (simp add: eta_animation_def)

section \<open>C9: the quiver stride of \<^verbatim>\<open>velocity_animation\<close>\<close>

lemma float64_002: "float64 (2 / 100) = 5764607523034235 / 288230376151711744"
  by code_simp

lemma stride_float_small:
  assumes "n < 50"
  shows "py_int (fmul (float64 (2 / 100)) (float_of_int (int n))) = 0"
proof (cases "n = 0")
  case True
  then show ?thesis by (simp add: fmul_def float_of_int_def float64_def py_int_def)
next
  case False
  let ?c = "5764607523034235 / 288230376151711744 :: rat"
  let ?x = "?c * of_nat n"
  have fn: "float_of_int (int n) = of_nat n"
    using float64_of_int_exact [of "int n"] assms by (simp add: float_of_int_def)
  have n1: "(1::rat) \<le> of_nat n" using False by (simp add: Suc_le_eq)
  have n49: "(of_nat n :: rat) \<le> 49" using assms by (simp add: of_nat_le_iff [of n 49, where ?'a = rat, simplified])
  have xpos: "0 < ?x" using n1 by simp
  have xhi: "?x \<le> ?c * 49" using n49 by simp
  have x1: "?x < pow2 0" using xhi by (simp add: pow2_def)
  have il: "ilog2 ?x < 0" by (rule less_pow2_imp_ilog2 [OF xpos x1])
  have "\<bar>float64 ?x - ?x\<bar> \<le> pow2 (ilog2 ?x - 53)" by (rule float64_pos_error [OF xpos])
  also have "\<dots> \<le> pow2 (- 54)" using il by (intro pow2_mono) simp
  finally have err: "\<bar>float64 ?x - ?x\<bar> \<le> 1 / 2 ^ 54" by (simp add: pow2_def)
  have c49: "?c * 49 + 1 / 2 ^ 54 < 1" by simp
  have up: "float64 ?x \<le> ?x + 1 / 2 ^ 54" using err by linarith
  have hi: "float64 ?x < 1" using up xhi c49 by linarith
  have lo: "0 \<le> float64 ?x"
    using float64_pos_bounds [OF xpos] pow2_pos [of "ilog2 ?x"] by simp
  have "py_int (float64 ?x) = 0" using lo hi by (simp add: py_int_def floor_eq_iff)
  then show ?thesis unfolding fmul_def float64_002 fn by (rule back_subst [where P = "\<lambda>t. t = 0"]) simp
qed

lemma stride_float_large:
  assumes "50 \<le> n"
  shows "1 \<le> py_int (fmul (float64 (2 / 100)) (float_of_int (int n)))"
proof -
  let ?c = "5764607523034235 / 288230376151711744 :: rat"
  have fn: "50 \<le> float_of_int (int n)"
  proof (cases "int n < 2 ^ 53")
    case True
    then have "float_of_int (int n) = of_nat n"
      using float64_of_int_exact [of "int n"] by (simp add: float_of_int_def)
    moreover have "(50 :: rat) \<le> of_nat n" using assms by (simp add: of_nat_le_iff [of 50 n, where ?'a = rat, simplified])
    ultimately show ?thesis by simp
  next
    case False
    then have "(2 ^ 53 :: int) \<le> int n" by simp
    then have "(of_int (2 ^ 53) :: rat) \<le> of_int (int n)" by (simp only: of_int_le_iff)
    then have "pow2 53 \<le> of_int (int n)" by (simp add: pow2_def)
    then have "pow2 53 \<le> float64 (of_int (int n))" by (rule float64_ge_pow2)
    then show ?thesis by (simp add: float_of_int_def pow2_def)
  qed
  have "pow2 0 \<le> ?c * float_of_int (int n)" using fn by (simp add: pow2_def)
  then have "pow2 0 \<le> float64 (?c * float_of_int (int n))" by (rule float64_ge_pow2)
  then have "1 \<le> float64 (?c * float_of_int (int n))" by (simp add: pow2_def)
  then have "1 \<le> py_int (float64 (?c * float_of_int (int n)))"
    by (simp add: py_int_def le_floor_iff)
  then show ?thesis unfolding fmul_def float64_002 by (rule back_subst [where P = "\<lambda>t. 1 \<le> t"]) simp
qed

lemma q_int_zero_iff: "q_int X = 0 \<longleftrightarrow> min (shape0 X) (shape1 X) < 50"
proof (cases "min (shape0 X) (shape1 X) < 50")
  case True
  then show ?thesis using stride_float_small [of "min (shape0 X) (shape1 X)"] by (simp add: q_int_def)
next
  case False
  then have "50 \<le> min (shape0 X) (shape1 X)" by linarith
  then have "1 \<le> q_int X" unfolding q_int_def by (rule stride_float_large)
  with False show ?thesis by simp
qed

text \<open>
  C9. The stride \<^verbatim>\<open>int(0.02 * min(*X.shape))\<close>, computed in double precision, is 0 exactly
  when the smaller dimension of \<open>X\<close> is below 50. The slices \<^verbatim>\<open>[::q_int, ::q_int]\<close> raise
  ValueError exactly then, and \<^verbatim>\<open>velocity_animation\<close> ends in this error at the first
  slice, whatever its other arguments are, with the outside world unchanged: no
  directory, no frame file and no video writer has been created.
\<close>

theorem velocity_animation_small_grid:
  "q_int X = py_int (float64 (float64 (2 / 100) * float64 (of_nat (min (shape0 X) (shape1 X)))))
   \<and> (q_int X = 0 \<longleftrightarrow> min (shape0 X) (shape1 X) < 50)
   \<and> (\<forall>a. slice2 (q_int X) a = Inl ValueError \<longleftrightarrow> min (shape0 X) (shape1 X) < 50)
   \<and> (min (shape0 X) (shape1 X) < 50 \<longrightarrow>
        velocity_animation R quiver X Y u_list v_list frame_interval out writer FPS arrow_scale w =
          (Inl ValueError, w))"
proof -
  have 1: "q_int X = py_int (float64 (float64 (2 / 100) * float64 (of_nat (min (shape0 X) (shape1 X)))))"
    by (simp add: q_int_def fmul_def float_of_int_def)
  have 2: "q_int X = 0 \<longleftrightarrow> min (shape0 X) (shape1 X) < 50" by (rule q_int_zero_iff)
  have 3: "\<forall>a. slice2 (q_int X) a = Inl ValueError \<longleftrightarrow> min (shape0 X) (shape1 X) < 50"
    using 2 by (simp add: slice2_def)
  have 4: "min (shape0 X) (shape1 X) < 50 \<longrightarrow>
        velocity_animation R quiver X Y u_list v_list frame_interval out writer FPS arrow_scale w =
          (Inl ValueError, w)"
    using 2 by (simp add: velocity_animation_def slice2_def Let_def)
  show ?thesis using 1 2 3 4 by blast
qed

text \<open>
  C9 on a 2x3 grid, with a library that accepts arrays of one common shape: the stride is
  0 and the call ends in ValueError.
\<close>

theorem velocity_animation_small_grid_witness:
  "min (shape0 [[0, 1, 2], [0, 1, 2]]) (shape1 [[0, 1, 2], [0, 1, 2]]) < 50
   \<and> q_int [[0, 1, 2], [0, 1, 2]] = 0
   \<and> velocity_animation (\<lambda>fig. \<lparr>img_size = (1, 1), img_pixels = [[(0, 0, 0, 255)]]\<rparr>)
        (\<lambda>X Y U V. if same_shape X Y \<and> same_shape X U \<and> same_shape X V then Inr () else Inl ValueError)
        [[0, 1, 2], [0, 1, 2]] [[0, 0, 0], [1, 1, 1]] [[[1, 1, 1], [1, 1, 1]]] [[[0, 0, 0], [0, 0, 0]]]
        30 [''out''] ''opencv'' 10 2 \<lparr>dirs = {}, files = Map.empty, writers = []\<rparr> =
       (Inl ValueError, \<lparr>dirs = {}, files = Map.empty, writers = []\<rparr>)"
proof -
  have small: "min (shape0 [[0, 1, 2], [0, 1, 2]]) (shape1 [[0, 1, 2], [0, 1, 2]]) < 50"
    by (simp add: shape0_def shape1_def)
  from velocity_animation_small_grid [where X = "[[0, 1, 2], [0, 1, 2]]"
      and R = "\<lambda>fig. \<lparr>img_size = (1, 1), img_pixels = [[(0, 0, 0, 255)]]\<rparr>"
      and quiver = "(\<lambda>X Y U V. if same_shape X Y \<and> same_shape X U \<and> same_shape X V then Inr () else Inl ValueError)"
      and Y = "[[0, 0, 0], [1, 1, 1]]" and u_list = "[[[1, 1, 1], [1, 1, 1]]]"
      and v_list = "[[[0, 0, 0], [0, 0, 0]]]" and frame_interval = 30 and out = "[''out'']"
      and writer = "''opencv''" and FPS = 10 and arrow_scale = 2
      and w = "\<lparr>dirs = {}, files = Map.empty, writers = []\<rparr>"] small
  show ?thesis by blast
qed

section \<open>C10: the colour scale of \<^verbatim>\<open>eta_animation3D\<close>\<close>

lemma amin_Inr_Min:
  assumes "amin xs = Inr m"
  shows "m = Min (set xs)"
proof (cases xs)
  case Nil
  with assms show ?thesis by (simp add: amin_def)
next
  case (Cons a list)
  then have "amin xs = Inr (Min (set xs))" by (intro amin_nonempty) simp
  with assms show ?thesis by simp
qed

lemma eta_animation3D_run:
  assumes ne: "eta_list \<noteq> []"
      and mn: "amin (concat (map flatten eta_list)) = Inr vmin"
      and mx: "amax (concat (map flatten eta_list)) = Inr vmax"
      and xl: "axis_limits X = Inr xl"
      and yl: "axis_limits Y = Inr yl"
  shows "eta_animation3D R X Y eta_list frame_interval out ''opencv'' FPS w =
         (Inr 0,
          \<lparr>dirs = dirs (mkdir_parents (out @ [''frames'']) w),
           files = frame_files (\<lambda>i. R (surf_frame X Y eta_list frame_interval vmin vmax xl yl i))
                     (out @ [''frames'']) (length eta_list) (files w),
           writers = writers w @
             [new_writer (out @ [''video.mp4'']) FPS
                (\<lambda>i. R (surf_frame X Y eta_list frame_interval vmin vmax xl yl i))
                (length eta_list) True]\<rparr>)"
proof -
  obtain eta0 rest where el: "eta_list = eta0 # rest" using ne by (cases eta_list) auto
  let ?fig = "\<lparr>sf_X = X, sf_Y = Y, sf_Z = eta0, sf_vmin = None, sf_vmax = None,
               sf_title_minutes = None, sf_xlim = None, sf_ylim = None, sf_zlim = None\<rparr>"
  have run: "render_video R (update_surf X Y eta_list frame_interval vmin vmax) out FPS
               (length eta_list) ?fig w =
         (Inr 0,
          \<lparr>dirs = dirs (mkdir_parents (out @ [''frames'']) w),
           files = frame_files (\<lambda>i. R (surf_frame X Y eta_list frame_interval vmin vmax xl yl i))
                     (out @ [''frames'']) (length eta_list) (files w),
           writers = writers w @
             [new_writer (out @ [''video.mp4'']) FPS
                (\<lambda>i. R (surf_frame X Y eta_list frame_interval vmin vmax xl yl i))
                (length eta_list) True]\<rparr>)"
  proof (rule render_video_run [where I = "\<lambda>g. True"])
    show "\<And>i g. i < length eta_list \<Longrightarrow> True \<Longrightarrow>
            update_surf X Y eta_list frame_interval vmin vmax i g =
              Inr (surf_frame X Y eta_list frame_interval vmin vmax xl yl i)"
      by (simp add: update_surf_def surf_frame_def xl yl)
    show "0 < length eta_list" using ne by simp
  qed simp_all
  have unfold: "eta_animation3D R X Y eta_list frame_interval out ''opencv'' FPS w =
      render_video R (update_surf X Y eta_list frame_interval vmin vmax) out FPS
        (length eta_list) ?fig w"
    using el mn mx by (simp add: eta_animation3D_def)
  show ?thesis
    by (simp only: unfold run)
qed

lemma update_surf_bounds:
  "update_surf X Y eta_list frame_interval vmin vmax i g = Inr g' \<Longrightarrow>
     sf_vmin g' = Some vmin \<and> sf_vmax g' = Some vmax"
  by (auto simp add: update_surf_def split: if_splits sum.splits)

text \<open>
  C10. When the minimum and the maximum over all values of all snapshots evaluate to
  \<open>vmin\<close> and \<open>vmax\<close>, every frame file of \<^verbatim>\<open>eta_animation3D\<close> is the rasterized
  surface of snapshot \<open>i\<close> drawn with exactly these two bounds; they are computed before
  the loop and \<^verbatim>\<open>update_surf\<close> uses them at every index. The frames of \<^verbatim>\<open>eta_animation\<close>
  on the same sequence use the largest magnitude \<open>m\<close> of the mid-sequence snapshot instead.
\<close>

theorem eta_animation3D_global_bounds:
  assumes ne: "eta_list \<noteq> []"
      and mn: "amin (concat (map flatten eta_list)) = Inr vmin"
      and mx: "amax (concat (map flatten eta_list)) = Inr vmax"
      and xl: "axis_limits X = Inr xl"
      and yl: "axis_limits Y = Inr yl"
      and am: "amax (map abs (flatten (eta_list ! (length eta_list div 2)))) = Inr m"
  shows "vmin = Min (set (concat (map flatten eta_list)))
       \<and> vmax = Max (set (concat (map flatten eta_list)))
       \<and> (\<forall>i<length eta_list.
              files (snd (eta_animation3D R X Y eta_list frame_interval out ''opencv'' FPS w))
                (out @ [''frames'', frame_name i]) =
                Some (Png (R (surf_frame X Y eta_list frame_interval vmin vmax xl yl i)))
            \<and> sf_vmin (surf_frame X Y eta_list frame_interval vmin vmax xl yl i) = Some vmin
            \<and> sf_vmax (surf_frame X Y eta_list frame_interval vmin vmax xl yl i) = Some vmax
            \<and> sf_Z (surf_frame X Y eta_list frame_interval vmin vmax xl yl i) = eta_list ! i)
       \<and> (\<forall>i g g'. update_surf X Y eta_list frame_interval vmin vmax i g = Inr g' \<longrightarrow>
              sf_vmin g' = Some vmin \<and> sf_vmax g' = Some vmax)
       \<and> m = Max (set (map abs (flatten (eta_list ! (length eta_list div 2)))))
       \<and> (\<forall>i<length eta_list.
              files (snd (eta_animation R2 X Y eta_list frame_interval out ''opencv'' FPS w))
                (out @ [''frames'', frame_name i]) =
                Some (Png (R2 (eta_frame X Y eta_list frame_interval m i)))
            \<and> ef_vmax (eta_frame X Y eta_list frame_interval m i) = m)"
proof -
  note run = eta_animation3D_run [OF ne mn mx xl yl, where R = R
      and frame_interval = frame_interval and out = out and FPS = FPS and w = w]
  have 1: "vmin = Min (set (concat (map flatten eta_list)))"
    by (rule amin_Inr_Min [OF mn])
  have 2: "vmax = Max (set (concat (map flatten eta_list)))"
    by (rule amax_Inr_Max [OF mx])
  have 3: "\<forall>i<length eta_list.
              files (snd (eta_animation3D R X Y eta_list frame_interval out ''opencv'' FPS w))
                (out @ [''frames'', frame_name i]) =
                Some (Png (R (surf_frame X Y eta_list frame_interval vmin vmax xl yl i)))
            \<and> sf_vmin (surf_frame X Y eta_list frame_interval vmin vmax xl yl i) = Some vmin
            \<and> sf_vmax (surf_frame X Y eta_list frame_interval vmin vmax xl yl i) = Some vmax
            \<and> sf_Z (surf_frame X Y eta_list frame_interval vmin vmax xl yl i) = eta_list ! i"
  proof (intro allI impI)
    fix i assume i: "i < length eta_list"
    have "files (snd (eta_animation3D R X Y eta_list frame_interval out ''opencv'' FPS w))
                (out @ [''frames'', frame_name i]) =
                Some (Png (R (surf_frame X Y eta_list frame_interval vmin vmax xl yl i)))"
      using frame_files_hit [OF i, of "\<lambda>i. R (surf_frame X Y eta_list frame_interval vmin vmax xl yl i)"
          "out @ [''frames'']" "files w"]
      by (simp add: run)
    then show "files (snd (eta_animation3D R X Y eta_list frame_interval out ''opencv'' FPS w))
                (out @ [''frames'', frame_name i]) =
                Some (Png (R (surf_frame X Y eta_list frame_interval vmin vmax xl yl i)))
            \<and> sf_vmin (surf_frame X Y eta_list frame_interval vmin vmax xl yl i) = Some vmin
            \<and> sf_vmax (surf_frame X Y eta_list frame_interval vmin vmax xl yl i) = Some vmax
            \<and> sf_Z (surf_frame X Y eta_list frame_interval vmin vmax xl yl i) = eta_list ! i"
      by (simp add: surf_frame_def)
  qed
  have 4: "\<forall>i g g'. update_surf X Y eta_list frame_interval vmin vmax i g = Inr g' \<longrightarrow>
              sf_vmin g' = Some vmin \<and> sf_vmax g' = Some vmax"
    using update_surf_bounds by blast
  have 5: "m = Max (set (map abs (flatten (eta_list ! (length eta_list div 2)))))"
    by (rule amax_Inr_Max [OF am])
  have 6: "\<forall>i<length eta_list.
              files (snd (eta_animation R2 X Y eta_list frame_interval out ''opencv'' FPS w))
                (out @ [''frames'', frame_name i]) =
                Some (Png (R2 (eta_frame X Y eta_list frame_interval m i)))
            \<and> ef_vmax (eta_frame X Y eta_list frame_interval m i) = m"
    using eta_animation_files(1) [OF ne am, where R = R2 and X = X and Y = Y
      and frame_interval = frame_interval and out = out and FPS = FPS and w = w]
    by (simp add: eta_frame_def)
  show ?thesis using 1 2 3 4 5 6 by blast
qed

text \<open>
  The hypotheses of C10 hold for two 2x2 snapshots: the global bounds are -7 and 9, while
  the mid-sequence magnitude is 7.
\<close>

theorem eta_animation3D_global_bounds_witness:
  "[[[0, 9], [2, 3]], [[4, 5], [6, - 7]]] \<noteq> ([] :: array2 list)
   \<and> amin (concat (map flatten [[[0, 9], [2, 3]], [[4, 5], [6, - 7]]])) = Inr (- 7)
   \<and> amax (concat (map flatten [[[0, 9], [2, 3]], [[4, 5], [6, - 7]]])) = Inr 9
   \<and> axis_limits [[0, 1000], [0, 1000]] = Inr (0, 1)
   \<and> axis_limits [[0, 0], [2000, 2000]] = Inr (0, 2)
   \<and> amax (map abs (flatten ([[[0, 9], [2, 3]], [[4, 5], [6, - 7]]] ! (length [[[0, 9], [2, 3 :: rat]], [[4, 5], [6, - 7]]] div 2)))) = Inr 7
   \<and> files (snd (eta_animation3D (\<lambda>fig. \<lparr>img_size = (1, 1), img_pixels = [[(0, 0, 0, 255)]]\<rparr>)
        [[0, 1000], [0, 1000]] [[0, 0], [2000, 2000]] [[[0, 9], [2, 3]], [[4, 5], [6, - 7]]] 30 [''out''] ''opencv'' 10
          \<lparr>dirs = {}, files = Map.empty, writers = []\<rparr>)) [''out'', ''frames'', ''frame_00000001.png''] =
       Some (Png \<lparr>img_size = (1, 1), img_pixels = [[(0, 0, 0, 255)]]\<rparr>)
   \<and> sf_vmin (surf_frame [[0, 1000], [0, 1000]] [[0, 0], [2000, 2000]] [[[0, 9], [2, 3]], [[4, 5], [6, - 7]]] 30 (- 7) 9 (0, 1) (0, 2) 1) = Some (- 7)
   \<and> sf_vmax (surf_frame [[0, 1000], [0, 1000]] [[0, 0], [2000, 2000]] [[[0, 9], [2, 3]], [[4, 5], [6, - 7]]] 30 (- 7) 9 (0, 1) (0, 2) 1) = Some 9"
proof -
  have ne: "[[[0, 9], [2, 3]], [[4, 5], [6, - 7]]] \<noteq> ([] :: array2 list)" by simp
  have mn: "amin (concat (map flatten [[[0, 9], [2, 3]], [[4, 5], [6, - 7 :: rat]]])) = Inr (- 7)"
    by (simp add: amin_def flatten_def)
  have mx: "amax (concat (map flatten [[[0, 9], [2, 3]], [[4, 5], [6, - 7 :: rat]]])) = Inr 9"
    by (simp add: amax_def flatten_def)
  have xl: "axis_limits [[0, 1000], [0, 1000]] = Inr (0, 1)"
    by code_simp
  have yl: "axis_limits [[0, 0], [2000, 2000]] = Inr (0, 2)"
    by code_simp
  have am: "amax (map abs (flatten ([[[0, 9], [2, 3]], [[4, 5], [6, - 7]]] ! (length [[[0, 9], [2, 3 :: rat]], [[4, 5], [6, - 7]]] div 2)))) = Inr 7"
    by (simp add: amax_def flatten_def)
  have i: "(1::nat) < length [[[0, 9], [2, 3 :: rat]], [[4, 5], [6, - 7]]]" by simp
  from eta_animation3D_global_bounds [OF ne mn mx xl yl am,
      where R = "\<lambda>fig. \<lparr>img_size = (1, 1), img_pixels = [[(0, 0, 0, 255)]]\<rparr>"
        and frame_interval = 30
        and out = "[''out'']" and FPS = 10 and w = "\<lparr>dirs = {}, files = Map.empty, writers = []\<rparr>"]
  have "files (snd (eta_animation3D (\<lambda>fig. \<lparr>img_size = (1, 1), img_pixels = [[(0, 0, 0, 255)]]\<rparr>)
        [[0, 1000], [0, 1000]] [[0, 0], [2000, 2000]] [[[0, 9], [2, 3]], [[4, 5], [6, - 7]]] 30 [''out''] ''opencv'' 10
          \<lparr>dirs = {}, files = Map.empty, writers = []\<rparr>)) ([''out''] @ [''frames'', frame_name 1]) =
       Some (Png \<lparr>img_size = (1, 1), img_pixels = [[(0, 0, 0, 255)]]\<rparr>)
   \<and> sf_vmin (surf_frame [[0, 1000], [0, 1000]] [[0, 0], [2000, 2000]] [[[0, 9], [2, 3]], [[4, 5], [6, - 7]]] 30 (- 7) 9 (0, 1) (0, 2) 1) = Some (- 7)
   \<and> sf_vmax (surf_frame [[0, 1000], [0, 1000]] [[0, 0], [2000, 2000]] [[[0, 9], [2, 3]], [[4, 5], [6, - 7]]] 30 (- 7) 9 (0, 1) (0, 2) 1) = Some 9"
    using i by blast
  then show ?thesis using ne mn mx xl yl am by (simp add: frame_name_1)
qed

end
